theory Spec2Isabelle
  imports Complex_Main
begin

section \<open>Python values\<close>

text \<open>
  The program is Python over NumPy. Its \<open>float\<close> values (IEEE doubles) are modelled as
  the reals: rounding, infinities and NaN are outside the model, and every operation
  that raises on a finite argument raises in the model too. Python's \<open>int\<close> is \<open>int\<close>.
  A function that can raise returns \<open>py_error + 'a\<close>, with \<open>Inl\<close> for the exception.
\<close>

datatype py_error = ZeroDivisionError | ValueError | OverflowError

text \<open>True division \<open>a / b\<close>: Python raises on a zero divisor.\<close>

definition truediv :: "real \<Rightarrow> real \<Rightarrow> py_error + real" where
  "truediv a b = (if b = 0 then Inl ZeroDivisionError else Inr (a / b))"

text \<open>\<open>int(x)\<close> on a float truncates towards zero.\<close>

definition py_int :: "real \<Rightarrow> int" where
  "py_int x = (if 0 \<le> x then \<lfloor>x\<rfloor> else \<lceil>x\<rceil>)"

text \<open>
  A store into an array of \<open>dtype=np.int32\<close> keeps the low 32 bits of the value,
  read as a signed number (the cast of the compiled loop).
\<close>

definition int32 :: "int \<Rightarrow> int" where
  "int32 v = (v + 2147483648) mod 4294967296 - 2147483648"

text \<open>Running a list of computations in order, stopping at the first exception.\<close>

fun collect :: "(py_error + 'a) list \<Rightarrow> py_error + 'a list" where
  "collect [] = Inr []"
| "collect (r # rs) =
     (case r of
        Inl e \<Rightarrow> Inl e
      | Inr v \<Rightarrow> (case collect rs of Inl e \<Rightarrow> Inl e | Inr vs \<Rightarrow> Inr (v # vs)))"

section \<open>fractal\_engine.py\<close>

subsection \<open>mandelbrot\_calculation\<close>

text \<open>
  The inner \<open>for n in range(max_iter)\<close> loop of one pixel, started at \<open>z = 0\<close>, \<open>n = 0\<close>.
  It leaves in one of three ways: the divergence test \<open>abs(z) > 2.0\<close> succeeds at index
  \<open>n\<close>, the periodicity shortcut \<open>n > 20 and abs(z) < 1e-10\<close> fires after the update,
  or the range is used up and the \<open>else\<close> branch of the loop runs.
\<close>

datatype loop_exit = Diverged int | Periodic | Completed

function escape_loop :: "complex \<Rightarrow> int \<Rightarrow> complex \<Rightarrow> int \<Rightarrow> loop_exit" where
  "escape_loop c max_iter z n =
     (if max_iter \<le> n then Completed
      else if cmod z > 2 then Diverged n
      else if n > 20 \<and> cmod (z * z + c) < 1 / 10000000000 then Periodic
      else escape_loop c max_iter (z * z + c) (n + 1))"
  by pat_completeness auto
termination
  by (relation "measure (\<lambda>(c, max_iter, z, n). nat (max_iter - n))") auto

text \<open>What each exit writes into \<open>result[i, j]\<close>, an \<open>int32\<close> cell.\<close>

fun cell_value :: "int \<Rightarrow> loop_exit \<Rightarrow> int" where
  "cell_value max_iter (Diverged n) = int32 n"
| "cell_value max_iter Periodic = int32 max_iter"
| "cell_value max_iter Completed = int32 max_iter"

text \<open>
  One pixel \<open>(i, j)\<close>: the two coordinate lines divide by \<open>width - 1\<close> and
  \<open>height - 1\<close>, with no guard, in this order. The division is Python's and raises
  on a zero divisor; where the compiled parallel loop does not raise, it goes on with
  a coordinate that is not a number. On neither reading is the axis kept at a fixed
  coordinate.
\<close>

definition mandelbrot_pixel ::
  "int \<Rightarrow> int \<Rightarrow> real \<Rightarrow> real \<Rightarrow> real \<Rightarrow> real \<Rightarrow> int \<Rightarrow> int \<Rightarrow> int \<Rightarrow> py_error + int" where
  "mandelbrot_pixel height width x_min x_max y_min y_max max_iter i j =
     (case truediv ((x_max - x_min) * of_int j) (of_int (width - 1)) of
        Inl e \<Rightarrow> Inl e
      | Inr qx \<Rightarrow>
          (case truediv ((y_max - y_min) * of_int i) (of_int (height - 1)) of
             Inl e \<Rightarrow> Inl e
           | Inr qy \<Rightarrow>
               Inr (cell_value max_iter
                      (escape_loop (Complex (x_min + qx) (y_min + qy)) max_iter 0 0))))"

text \<open>
  The grid, row by row. \<open>np.zeros((height, width))\<close> refuses a negative dimension.
\<close>

definition mandelbrot_calculation ::
  "int \<Rightarrow> int \<Rightarrow> real \<Rightarrow> real \<Rightarrow> real \<Rightarrow> real \<Rightarrow> int \<Rightarrow> py_error + int list list" where
  "mandelbrot_calculation height width x_min x_max y_min y_max max_iter =
     (if height < 0 \<or> width < 0 then Inl ValueError
      else collect (map (\<lambda>i. collect (map (\<lambda>j.
             mandelbrot_pixel height width x_min x_max y_min y_max max_iter (int i) (int j))
             [0..<nat width])) [0..<nat height]))"

text \<open>Reading one cell of a returned grid.\<close>

definition entry :: "py_error + int list list \<Rightarrow> nat \<Rightarrow> nat \<Rightarrow> py_error + int" where
  "entry r i j = (case r of Inl e \<Rightarrow> Inl e | Inr g \<Rightarrow> Inr (g ! i ! j))"

text \<open>
  The plane point of pixel \<open>(i, j)\<close>, the \<open>c = complex(x, y)\<close> of the loop body,
  when neither division raises.
\<close>

definition plane_point ::
  "int \<Rightarrow> int \<Rightarrow> real \<Rightarrow> real \<Rightarrow> real \<Rightarrow> real \<Rightarrow> int \<Rightarrow> int \<Rightarrow> complex" where
  "plane_point height width x_min x_max y_min y_max i j =
     Complex (x_min + (x_max - x_min) * of_int j / of_int (width - 1))
             (y_min + (y_max - y_min) * of_int i / of_int (height - 1))"

subsection \<open>MandelbrotEngine\<close>

record engine =
  width :: int
  height :: int
  x_center :: real
  y_center :: real
  zoom :: real
  aspect_ratio :: real
  max_iter :: int
  min_iter :: int
  max_max_iter :: int
  last_params :: "(real \<times> real \<times> real \<times> int \<times> int \<times> int) option"
  cached_result :: "int list list option"
  render_count :: int
  total_pixels :: int

text \<open>\<open>__init__\<close>: the division \<open>width / height\<close> raises before an object exists.\<close>

definition MandelbrotEngine :: "int \<Rightarrow> int \<Rightarrow> py_error + engine" where
  "MandelbrotEngine w h =
     (case truediv (of_int w) (of_int h) of
        Inl e \<Rightarrow> Inl e
      | Inr ar \<Rightarrow>
          Inr \<lparr>width = w, height = h, x_center = - (1 / 2), y_center = 0, zoom = 1,
               aspect_ratio = ar, max_iter = 100, min_iter = 50, max_max_iter = 2000,
               last_params = None, cached_result = None, render_count = 0,
               total_pixels = w * h\<rparr>)"

definition get_bounds :: "engine \<Rightarrow> py_error + (real \<times> real \<times> real \<times> real)" where
  "get_bounds s =
     (case truediv 3 (zoom s) of
        Inl e \<Rightarrow> Inl e
      | Inr view_width \<Rightarrow>
          (case truediv view_width (aspect_ratio s) of
             Inl e \<Rightarrow> Inl e
           | Inr view_height \<Rightarrow>
               Inr (x_center s - view_width / 2, x_center s + view_width / 2,
                    y_center s - view_height / 2, y_center s + view_height / 2)))"

text \<open>
  \<open>np.log10\<close> returns \<open>-inf\<close> at zero and NaN below it (with a warning only); the
  \<open>int(...)\<close> around it then raises OverflowError and ValueError.
\<close>

definition adaptive_iterations :: "engine \<Rightarrow> real \<Rightarrow> py_error + int" where
  "adaptive_iterations s z =
     (if z + 1 = 0 then Inl OverflowError
      else if z + 1 < 0 then Inl ValueError
      else Inr (min (py_int (of_int (min_iter s) + log 10 (z + 1) * 30)) (max_max_iter s)))"

definition current_params :: "engine \<Rightarrow> real \<times> real \<times> real \<times> int \<times> int \<times> int" where
  "current_params s = (x_center s, y_center s, zoom s, width s, height s, max_iter s)"

text \<open>
  \<open>generate\<close> returns the grid and the engine after the call. Every exception
  is raised before the first assignment to a field, so \<open>Inl\<close> leaves the engine as
  it was. \<open>cache_hit\<close> is the test
  \<open>current_params == self.last_params and self.cached_result is not None\<close>.
\<close>

definition cache_hit :: "engine \<Rightarrow> bool" where
  "cache_hit s = (last_params s = Some (current_params s) \<and> cached_result s \<noteq> None)"

definition generate :: "engine \<Rightarrow> py_error + (int list list \<times> engine)" where
  "generate s =
     (if cache_hit s
      then Inr (the (cached_result s), s)
      else
        (case get_bounds s of
           Inl e \<Rightarrow> Inl e
         | Inr (x_min, x_max, y_min, y_max) \<Rightarrow>
             (case adaptive_iterations s (zoom s) of
                Inl e \<Rightarrow> Inl e
              | Inr adaptive_iter \<Rightarrow>
                  (case mandelbrot_calculation (height s) (width s) x_min x_max y_min y_max
                          (min (max_iter s) adaptive_iter) of
                     Inl e \<Rightarrow> Inl e
                   | Inr result \<Rightarrow>
                       Inr (result,
                            s\<lparr>last_params := Some (current_params s),
                              cached_result := Some result,
                              render_count := render_count s + 1\<rparr>)))))"

definition zoom_at_point :: "engine \<Rightarrow> int \<Rightarrow> int \<Rightarrow> real \<Rightarrow> py_error + engine" where
  "zoom_at_point s screen_x screen_y zoom_factor =
     (case get_bounds s of
        Inl e \<Rightarrow> Inl e
      | Inr (x_min, x_max, y_min, y_max) \<Rightarrow>
          (case truediv ((x_max - x_min) * of_int screen_x) (of_int (width s)) of
             Inl e \<Rightarrow> Inl e
           | Inr qx \<Rightarrow>
               (case truediv ((y_max - y_min) * of_int screen_y) (of_int (height s)) of
                  Inl e \<Rightarrow> Inl e
                | Inr qy \<Rightarrow>
                    (let z1 = zoom s * zoom_factor;
                         z2 = (if z1 > 1000000000000000 then 1000000000000000 else z1);
                         z3 = (if z2 < 1 / 10 then 1 / 10 else z2)
                     in Inr (s\<lparr>x_center := x_min + qx, y_center := y_min + qy,
                               zoom := z3\<rparr>)))))"

definition pan :: "engine \<Rightarrow> int \<Rightarrow> int \<Rightarrow> py_error + engine" where
  "pan s dx dy =
     (case get_bounds s of
        Inl e \<Rightarrow> Inl e
      | Inr (x_min, x_max, y_min, y_max) \<Rightarrow>
          (case truediv (x_max - x_min) (of_int (width s)) of
             Inl e \<Rightarrow> Inl e
           | Inr pixel_width \<Rightarrow>
               (case truediv (y_max - y_min) (of_int (height s)) of
                  Inl e \<Rightarrow> Inl e
                | Inr pixel_height \<Rightarrow>
                    Inr (s\<lparr>x_center := x_center s + of_int dx * pixel_width,
                          y_center := y_center s + of_int dy * pixel_height\<rparr>))))"

definition reset_view :: "engine \<Rightarrow> engine" where
  "reset_view s =
     s\<lparr>x_center := - (1 / 2), y_center := 0, zoom := 1, max_iter := 100,
       last_params := None, cached_result := None\<rparr>"

text \<open>
  \<open>resize\<close> assigns \<open>width\<close> and \<open>height\<close> before it divides them: when the
  division raises, the two fields have changed already. The result is the exception,
  if any, and the engine as the call leaves it.
\<close>

definition resize :: "engine \<Rightarrow> int \<Rightarrow> int \<Rightarrow> py_error option \<times> engine" where
  "resize s w h =
     (case truediv (of_int w) (of_int h) of
        Inl e \<Rightarrow> (Some e, s\<lparr>width := w, height := h\<rparr>)
      | Inr ar \<Rightarrow>
          (None, s\<lparr>width := w, height := h, aspect_ratio := ar, total_pixels := w * h,
                   last_params := None, cached_result := None\<rparr>))"

definition increase_iterations :: "engine \<Rightarrow> int \<Rightarrow> engine" where
  "increase_iterations s factor =
     s\<lparr>max_iter := min (max_iter s + factor) (max_max_iter s),
       last_params := None, cached_result := None\<rparr>"

definition decrease_iterations :: "engine \<Rightarrow> int \<Rightarrow> engine" where
  "decrease_iterations s factor =
     s\<lparr>max_iter := max (max_iter s - factor) (min_iter s),
       last_params := None, cached_result := None\<rparr>"

text \<open>
  The navigation commands of the engine, and the engine after one of them; after an
  exception it is the engine the call left behind.
\<close>

datatype nav_op =
    ZoomAtPoint int int real
  | Pan int int
  | ResetView
  | Resize int int
  | IncreaseIterations int
  | DecreaseIterations int

fun nav_step :: "engine \<Rightarrow> nav_op \<Rightarrow> engine" where
  "nav_step s (ZoomAtPoint x y k) = (case zoom_at_point s x y k of Inl e \<Rightarrow> s | Inr s' \<Rightarrow> s')"
| "nav_step s (Pan dx dy) = (case pan s dx dy of Inl e \<Rightarrow> s | Inr s' \<Rightarrow> s')"
| "nav_step s ResetView = reset_view s"
| "nav_step s (Resize w h) = snd (resize s w h)"
| "nav_step s (IncreaseIterations f) = increase_iterations s f"
| "nav_step s (DecreaseIterations f) = decrease_iterations s f"

declare escape_loop.simps [simp del]

section \<open>color\_palette.py\<close>

type_synonym rgb = "int \<times> int \<times> int"

datatype PaletteType =
  RAINBOW | OCEAN | FIRE | ELECTRIC | COSMIC | VINTAGE | NEON | ICE | SUNSET | MATRIX

text \<open>
  \<open>self.palettes = list(PaletteType)\<close> is assigned once, in \<open>__init__\<close>, and never
  again: it is this list.
\<close>

definition palettes :: "PaletteType list" where
  "palettes = [RAINBOW, OCEAN, FIRE, ELECTRIC, COSMIC, VINTAGE, NEON, ICE, SUNSET, MATRIX]"

text \<open>
  The dictionary \<open>color_cache\<close> is an association list, newest entry first; an entry
  is added only under a key that is absent, so its length is the \<open>len\<close> of the
  dictionary.
\<close>

record palette =
  current_palette_index :: int
  current_palette :: PaletteType
  color_cache :: "((int \<times> int \<times> int \<times> int) \<times> rgb) list"
  cache_size :: int
  animation_time :: real
  animation_speed :: real

definition ColorPalette :: palette where
  "ColorPalette =
     \<lparr>current_palette_index = 0, current_palette = palettes ! 0, color_cache = [],
      cache_size = 1000, animation_time = 0, animation_speed = 2 / 100\<rparr>"

definition next_palette :: "palette \<Rightarrow> palette" where
  "next_palette s =
     (let i = (current_palette_index s + 1) mod int (length palettes)
      in s\<lparr>current_palette_index := i, current_palette := palettes ! nat i,
            color_cache := []\<rparr>)"

text \<open>
  \<open>colorsys.hsv_to_rgb\<close> belongs to the Python standard library, not to this
  repository; this is the function of CPython's \<open>Lib/colorsys.py\<close>. Its last test,
  \<open>i == 5\<close>, is the only case left after the five before it.
\<close>

definition colorsys_hsv_to_rgb :: "real \<Rightarrow> real \<Rightarrow> real \<Rightarrow> real \<times> real \<times> real" where
  "colorsys_hsv_to_rgb h s v =
     (if s = 0 then (v, v, v)
      else
        (let i = py_int (h * 6);
             f = h * 6 - of_int i;
             p = v * (1 - s);
             q = v * (1 - s * f);
             t = v * (1 - s * (1 - f));
             i6 = i mod 6
         in if i6 = 0 then (v, t, p)
            else if i6 = 1 then (q, v, p)
            else if i6 = 2 then (p, v, t)
            else if i6 = 3 then (p, q, v)
            else if i6 = 4 then (t, p, v)
            else (v, p, q)))"

definition hsv_to_rgb :: "real \<Rightarrow> real \<Rightarrow> real \<Rightarrow> rgb" where
  "hsv_to_rgb h s v =
     (case colorsys_hsv_to_rgb h s v of
        (r, g, b) \<Rightarrow> (py_int (r * 255), py_int (g * 255), py_int (b * 255)))"

text \<open>The closing \<open>max(0, min(255, c))\<close> of the banded palettes.\<close>

definition clamp255 :: "int \<Rightarrow> int" where
  "clamp255 c = max 0 (min 255 c)"

text \<open>
  Each palette function reads \<open>self.animation_time\<close>; it is the first argument
  here. \<open>x % 1.0\<close> on floats is the fractional part \<open>frac x\<close>, in \<open>[0, 1)\<close> for
  every sign of \<open>x\<close>.
\<close>

definition rainbow_color :: "real \<Rightarrow> real \<Rightarrow> real \<Rightarrow> rgb" where
  "rainbow_color a t intensity =
     (let hue = frac (t * 6 + a);
          saturation = 8 / 10 + 2 / 10 * sin (t * pi * 4 + a * 2);
          val = intensity * (5 / 10 + 5 / 10 * sin (t * pi * 2))
      in hsv_to_rgb hue saturation val)"

definition ocean_color :: "real \<Rightarrow> real \<Rightarrow> real \<Rightarrow> rgb" where
  "ocean_color a t intensity =
     (if t < 1 / 10 then
        (let blue = py_int (10 + t * 500 * intensity);
             green = py_int (5 + t * 300 * intensity);
             red = 0
         in (clamp255 red, clamp255 green, clamp255 blue))
      else if t < 6 / 10 then
        (let wave = sin (t * pi * 8 + a * 3);
             blue = py_int (50 + (t - 1 / 10) * 400 * intensity + wave * 30);
             green = py_int (30 + (t - 1 / 10) * 300 * intensity + wave * 40);
             red = py_int (wave * 20)
         in (clamp255 red, clamp255 green, clamp255 blue))
      else
        (let foam = sin (t * pi * 16 + a * 5);
             blue = py_int (150 + (t - 6 / 10) * 200 + foam * 50);
             green = py_int (200 + (t - 6 / 10) * 50 + foam * 30);
             red = py_int (100 + foam * 40)
         in (clamp255 red, clamp255 green, clamp255 blue)))"

definition fire_color :: "real \<Rightarrow> real \<Rightarrow> real \<Rightarrow> rgb" where
  "fire_color a t intensity =
     (let flicker = sin (t * pi * 12 + a * 8) * (1 / 10);
          adjusted_t = max 0 (min 1 (t + flicker))
      in if adjusted_t < 2 / 10 then
           (let red = py_int (20 + adjusted_t * 600 * intensity);
                green = py_int (adjusted_t * 100 * intensity);
                blue = 0
            in (clamp255 red, clamp255 green, clamp255 blue))
         else if adjusted_t < 5 / 10 then
           (let red = py_int (120 + (adjusted_t - 2 / 10) * 400 * intensity);
                green = py_int (20 + (adjusted_t - 2 / 10) * 600 * intensity);
                blue = py_int ((adjusted_t - 2 / 10) * 100 * intensity)
            in (clamp255 red, clamp255 green, clamp255 blue))
         else if adjusted_t < 8 / 10 then
           (let red = py_int (200 + (adjusted_t - 5 / 10) * 150 * intensity);
                green = py_int (120 + (adjusted_t - 5 / 10) * 400 * intensity);
                blue = py_int (30 + (adjusted_t - 5 / 10) * 200 * intensity)
            in (clamp255 red, clamp255 green, clamp255 blue))
         else
           (let red = 255;
                green = py_int (220 + (adjusted_t - 8 / 10) * 175 * intensity);
                blue = py_int (60 + (adjusted_t - 8 / 10) * 700 * intensity)
            in (clamp255 red, clamp255 green, clamp255 blue)))"

definition electric_color :: "real \<Rightarrow> real \<Rightarrow> real \<Rightarrow> rgb" where
  "electric_color a t intensity =
     (let pulse = sin (t * pi * 6 + a * 10) * (3 / 10);
          spark = sin (t * pi * 20 + a * 15) * (1 / 10);
          base_hue = 6 / 10 + t * (3 / 10) + pulse * (1 / 10);
          saturation = 9 / 10 + spark * (1 / 10);
          val = intensity * (3 / 10 + 7 / 10 * t + pulse * (3 / 10))
      in hsv_to_rgb (frac base_hue) (min 1 saturation) (min 1 val))"

definition cosmic_color :: "real \<Rightarrow> real \<Rightarrow> real \<Rightarrow> rgb" where
  "cosmic_color a t intensity =
     (let swirl = sin (t * pi * 3 + a * 2) * (2 / 10);
          twinkle = sin (t * pi * 25 + a * 12) * (1 / 10)
      in if t < 3 / 10 then
           (let red = py_int (20 + t * 200 * intensity + twinkle * 50);
                green = py_int (5 + t * 50 * intensity);
                blue = py_int (40 + t * 400 * intensity + swirl * 60)
            in (clamp255 red, clamp255 green, clamp255 blue))
         else if t < 7 / 10 then
           (let red = py_int (60 + (t - 3 / 10) * 400 * intensity + swirl * 80);
                green = py_int (20 + (t - 3 / 10) * 200 * intensity + twinkle * 40);
                blue = py_int (120 + (t - 3 / 10) * 300 * intensity)
            in (clamp255 red, clamp255 green, clamp255 blue))
         else
           (let red = py_int (200 + (t - 7 / 10) * 180 * intensity);
                green = py_int (150 + (t - 7 / 10) * 300 * intensity);
                blue = py_int (50 + (t - 7 / 10) * 400 * intensity + twinkle * 100)
            in (clamp255 red, clamp255 green, clamp255 blue)))"

definition vintage_color :: "real \<Rightarrow> real \<Rightarrow> real \<Rightarrow> rgb" where
  "vintage_color a t intensity =
     (let base = t * intensity;
          red = py_int (100 + base * 120);
          green = py_int (80 + base * 100);
          blue = py_int (50 + base * 60)
      in (clamp255 red, clamp255 green, clamp255 blue))"

definition neon_color :: "real \<Rightarrow> real \<Rightarrow> real \<Rightarrow> rgb" where
  "neon_color a t intensity =
     (let glow = sin (t * pi * 8 + a * 6) * (2 / 10);
          hue = frac (t * (8 / 10) + a * (1 / 10))
      in hsv_to_rgb hue 1 (min 1 (intensity * (7 / 10 + 3 / 10 * t + glow))))"

definition ice_color :: "real \<Rightarrow> real \<Rightarrow> real \<Rightarrow> rgb" where
  "ice_color a t intensity =
     (let crystal = sin (t * pi * 15 + a * 4) * (1 / 10);
          blue_base = 150 + t * 100 * intensity + crystal * 30;
          red_base = 100 + t * 120 * intensity + crystal * 50;
          green_base = 130 + t * 110 * intensity + crystal * 40
      in (clamp255 (py_int red_base), clamp255 (py_int green_base),
          clamp255 (py_int blue_base)))"

definition sunset_color :: "real \<Rightarrow> real \<Rightarrow> real \<Rightarrow> rgb" where
  "sunset_color a t intensity =
     (if t < 4 / 10 then
        (let red = py_int (255 * intensity);
             green = py_int (120 + t * 300 * intensity);
             blue = py_int (30 + t * 100 * intensity)
         in (clamp255 red, clamp255 green, clamp255 blue))
      else
        (let red = py_int (200 + (1 - t) * 100 * intensity);
             green = py_int (50 + t * 150 * intensity);
             blue = py_int (80 + t * 300 * intensity)
         in (clamp255 red, clamp255 green, clamp255 blue)))"

definition matrix_color :: "real \<Rightarrow> real \<Rightarrow> real \<Rightarrow> rgb" where
  "matrix_color a t intensity =
     (let digital = sin (t * pi * 30 + a * 20) * (2 / 10);
          green = py_int (50 + t * 200 * intensity + digital * 50);
          red = py_int (t * 50 * intensity);
          blue = py_int (t * 30 * intensity)
      in (clamp255 red, clamp255 green, clamp255 blue))"

text \<open>The dictionary \<open>color_functions\<close> of \<open>get_color\<close>: one function per palette.\<close>

fun color_functions :: "PaletteType \<Rightarrow> real \<Rightarrow> real \<Rightarrow> real \<Rightarrow> rgb" where
  "color_functions RAINBOW = rainbow_color"
| "color_functions OCEAN = ocean_color"
| "color_functions FIRE = fire_color"
| "color_functions ELECTRIC = electric_color"
| "color_functions COSMIC = cosmic_color"
| "color_functions VINTAGE = vintage_color"
| "color_functions NEON = neon_color"
| "color_functions ICE = ice_color"
| "color_functions SUNSET = sunset_color"
| "color_functions MATRIX = matrix_color"

text \<open>
  \<open>get_color\<close> returns the colour and the palette after the call. On a negative
  \<open>t\<close>, \<open>np.sqrt\<close> gives NaN and \<open>min(1.0, nan)\<close> keeps its first argument:
  the intensity is \<open>1.0\<close>. The only exception, the division by a zero
  \<open>max_iterations\<close>, is raised before the cache is written.
\<close>

definition cache_store :: "palette \<Rightarrow> int \<times> int \<times> int \<times> int \<Rightarrow> rgb \<Rightarrow> palette" where
  "cache_store s cache_key color =
     (if int (length (color_cache s)) < cache_size s
      then s\<lparr>color_cache := (cache_key, color) # color_cache s\<rparr>
      else s)"

definition get_color :: "palette \<Rightarrow> int \<Rightarrow> int \<Rightarrow> py_error + (rgb \<times> palette)" where
  "get_color s iterations max_iterations =
     (let cache_key = (iterations, max_iterations, current_palette_index s,
                       py_int (animation_time s * 100))
      in case map_of (color_cache s) cache_key of
           Some color \<Rightarrow> Inr (color, s)
         | None \<Rightarrow>
             (if iterations \<ge> max_iterations
              then Inr ((0, 0, 0), cache_store s cache_key (0, 0, 0))
              else
                (case truediv (of_int iterations) (of_int max_iterations) of
                   Inl e \<Rightarrow> Inl e
                 | Inr t \<Rightarrow>
                     (let intensity = (if t < 0 then 1 else min 1 (sqrt t * (12 / 10)));
                          color = color_functions (current_palette s) (animation_time s)
                                    t intensity
                      in Inr (color, cache_store s cache_key color)))))"

text \<open>
  \<open>apply_colors\<close>: the animation clock moves first; \<open>np.max\<close> refuses an empty
  array; then one \<open>get_color\<close> per distinct value, in the ascending order of
  \<open>np.unique\<close>; then the broadcast into the \<open>uint8\<close> bitmap. The result carries
  the palette as the call leaves it, also when it raises.
\<close>

definition uint8 :: "int \<Rightarrow> int" where
  "uint8 c = c mod 256"

fun color_map_loop ::
  "palette \<Rightarrow> int list \<Rightarrow> int \<Rightarrow> (int \<times> rgb) list \<Rightarrow> (py_error + (int \<times> rgb) list) \<times> palette" where
  "color_map_loop s [] max_it color_map = (Inr color_map, s)"
| "color_map_loop s (v # vs) max_it color_map =
     (case get_color s v max_it of
        Inl e \<Rightarrow> (Inl e, s)
      | Inr (color, s') \<Rightarrow> color_map_loop s' vs max_it ((v, color) # color_map))"

definition apply_colors ::
  "palette \<Rightarrow> int list list \<Rightarrow> (py_error + rgb list list) \<times> palette" where
  "apply_colors s fractal_data =
     (let t1 = animation_time s + animation_speed s;
          s1 = s\<lparr>animation_time := (if t1 > 2 * pi then 0 else t1)\<rparr>;
          cells = concat fractal_data
      in if cells = [] then (Inl ValueError, s1)
         else
           (case color_map_loop s1 (sort (remdups cells)) (fold max (tl cells) (hd cells)) [] of
              (Inl e, s2) \<Rightarrow> (Inl e, s2)
            | (Inr color_map, s2) \<Rightarrow>
                (Inr (map (map (\<lambda>v. case the (map_of color_map v) of
                                       (r, g, b) \<Rightarrow> (uint8 r, uint8 g, uint8 b)))
                       fractal_data), s2)))"

text \<open>The commands on a palette, and the palette after one of them.\<close>

datatype palette_op = NextPalette | GetColor int int | ApplyColors "int list list"

fun palette_step :: "palette \<Rightarrow> palette_op \<Rightarrow> palette" where
  "palette_step s NextPalette = next_palette s"
| "palette_step s (GetColor v m) = (case get_color s v m of Inl e \<Rightarrow> s | Inr (c, s') \<Rightarrow> s')"
| "palette_step s (ApplyColors g) = snd (apply_colors s g)"

text \<open>A triple with every channel in \<open>[0, 255]\<close>.\<close>

definition rgb_in_range :: "rgb \<Rightarrow> bool" where
  "rgb_in_range c = (case c of (r, g, b) \<Rightarrow>
     0 \<le> r \<and> r \<le> 255 \<and> 0 \<le> g \<and> g \<le> 255 \<and> 0 \<le> b \<and> b \<le> 255)"

section \<open>The formulas of the specification and the invariants\<close>

text \<open>
  The specification's formula for the adaptive cap:
  \<open>clamp(min_iter + log10(zoom + 1) * 30, min_iter, max_max_iter)\<close> with
  \<open>min_iter = 50\<close>, \<open>max_max_iter = 2000\<close> and the floor of the intermediate value.
\<close>

definition clamp :: "int \<Rightarrow> int \<Rightarrow> int \<Rightarrow> int" where
  "clamp x lo hi = max lo (min hi x)"

definition spec_adaptive_iterations :: "real \<Rightarrow> int" where
  "spec_adaptive_iterations z = clamp \<lfloor>50 + log 10 (z + 1) * 30\<rfloor> 50 2000"

text \<open>The invariant of the viewport: the zoom lies in \<open>[0.1, 1e15]\<close>.\<close>

definition zoom_in_range :: "engine \<Rightarrow> bool" where
  "zoom_in_range s = (1 / 10 \<le> zoom s \<and> zoom s \<le> 1000000000000000)"

text \<open>Two values agree within the relative tolerance \<open>1e-9\<close>.\<close>

definition within_tolerance :: "real \<Rightarrow> real \<Rightarrow> bool" where
  "within_tolerance a b = (\<bar>a - b\<bar> \<le> (1 / 1000000000) * max \<bar>a\<bar> \<bar>b\<bar>)"

text \<open>
  Two coordinates of the plane agree within \<open>1e-9\<close>, relative to the larger of the two
  and of the extent of the view: a coordinate that is zero carries no scale of its own.
\<close>

definition within_tolerance_of_view :: "real \<Rightarrow> real \<Rightarrow> real \<Rightarrow> bool" where
  "within_tolerance_of_view extent a b =
     (\<bar>a - b\<bar> \<le> (1 / 1000000000) * max \<bar>extent\<bar> (max \<bar>a\<bar> \<bar>b\<bar>))"

text \<open>
  While \<open>height\<close> is not zero, \<open>aspect_ratio\<close> is the quotient \<open>width / height\<close>
  that \<open>__init__\<close> or the last \<open>resize\<close> that returned has stored.
\<close>

definition aspect_known :: "engine \<Rightarrow> bool" where
  "aspect_known s =
     (height s \<noteq> 0 \<longrightarrow> aspect_ratio s = of_int (width s) / of_int (height s))"

text \<open>
  The invariant of the colour cache: an entry whose key has \<open>iterations \<ge>
  max_iterations\<close> holds black, and an entry whose key has \<open>iterations \<ge> 0\<close> holds
  a triple with every channel in \<open>[0, 255]\<close>.
\<close>

definition cache_sound :: "palette \<Rightarrow> bool" where
  "cache_sound s =
     (\<forall>((v, m, p, b), c) \<in> set (color_cache s).
        (m \<le> v \<longrightarrow> c = (0, 0, 0)) \<and> (0 \<le> v \<longrightarrow> rgb_in_range c))"

section \<open>Results of the pixel loop and of the grid\<close>

lemma collect_map_Inr: "collect (map (\<lambda>x. Inr (f x)) xs) = Inr (map f xs)"
  by (induction xs) simp_all

lemma collect_hd_Inl: "xs \<noteq> [] \<Longrightarrow> f (hd xs) = Inl e \<Longrightarrow> collect (map f xs) = Inl e"
  by (cases xs) simp_all

lemma int32_id: "- 2147483648 \<le> v \<Longrightarrow> v < 2147483648 \<Longrightarrow> int32 v = v"
  by (simp add: int32_def)

lemma mandelbrot_pixel_Inr:
  "w \<noteq> 1 \<Longrightarrow> h \<noteq> 1 \<Longrightarrow>
   mandelbrot_pixel h w x0 x1 y0 y1 m i j =
     Inr (cell_value m (escape_loop (plane_point h w x0 x1 y0 y1 i j) m 0 0))"
  by (simp add: mandelbrot_pixel_def truediv_def plane_point_def)

lemma mandelbrot_pixel_width_1:
  "mandelbrot_pixel h 1 x0 x1 y0 y1 m i j = Inl ZeroDivisionError"
  by (simp add: mandelbrot_pixel_def truediv_def)

lemma mandelbrot_pixel_height_1:
  "mandelbrot_pixel 1 w x0 x1 y0 y1 m i j = Inl ZeroDivisionError"
  by (simp add: mandelbrot_pixel_def truediv_def split: sum.splits)

lemma mandelbrot_calculation_Inr:
  assumes "2 \<le> h" "2 \<le> w"
  shows "mandelbrot_calculation h w x0 x1 y0 y1 m =
     Inr (map (\<lambda>i. map (\<lambda>j. cell_value m
            (escape_loop (plane_point h w x0 x1 y0 y1 (int i) (int j)) m 0 0))
         [0..<nat w]) [0..<nat h])"
proof -
  have w1: "w \<noteq> 1" and h1: "h \<noteq> 1" using assms by simp_all
  have neg: "\<not> (h < 0 \<or> w < 0)" using assms by simp
  show ?thesis
    unfolding mandelbrot_calculation_def if_not_P [OF neg] mandelbrot_pixel_Inr [OF w1 h1] collect_map_Inr
    by (rule refl)
qed

lemma upt_nat_nonempty: "1 \<le> k \<Longrightarrow> [0..<nat k] \<noteq> [] \<and> hd [0..<nat k] = 0"
  by (simp add: hd_upt)

lemma mandelbrot_calculation_width_1:
  assumes "1 \<le> h"
  shows "mandelbrot_calculation h 1 x0 x1 y0 y1 m = Inl ZeroDivisionError"
proof -
  have row: "collect (map (\<lambda>j. mandelbrot_pixel h 1 x0 x1 y0 y1 m i (int j)) [0..<nat 1])
               = Inl ZeroDivisionError" for i
    by (simp add: mandelbrot_pixel_width_1)
  have "collect (map (\<lambda>i. collect (map (\<lambda>j. mandelbrot_pixel h 1 x0 x1 y0 y1 m (int i) (int j))
          [0..<nat 1])) [0..<nat h]) = Inl ZeroDivisionError"
    using upt_nat_nonempty [OF assms] by (intro collect_hd_Inl) (simp_all add: mandelbrot_pixel_width_1)
  with assms show ?thesis by (simp add: mandelbrot_calculation_def)
qed

lemma mandelbrot_calculation_height_1:
  assumes "1 \<le> w"
  shows "mandelbrot_calculation 1 w x0 x1 y0 y1 m = Inl ZeroDivisionError"
proof -
  have "collect (map (\<lambda>j. mandelbrot_pixel 1 w x0 x1 y0 y1 m i (int j)) [0..<nat w])
               = Inl ZeroDivisionError" for i
    using upt_nat_nonempty [OF assms] by (intro collect_hd_Inl) (simp_all add: mandelbrot_pixel_height_1)
  with assms show ?thesis by (simp add: mandelbrot_calculation_def)
qed

lemma cmod_gt_2_iff: "cmod z > 2 \<longleftrightarrow> (Re z)\<^sup>2 + (Im z)\<^sup>2 > 4"
proof -
  have "sqrt 4 < sqrt ((Re z)\<^sup>2 + (Im z)\<^sup>2) \<longleftrightarrow> 4 < (Re z)\<^sup>2 + (Im z)\<^sup>2"
    by (rule real_sqrt_less_iff)
  then show ?thesis by (simp add: norm_complex_def)
qed

lemma cmod_small_iff:
  "cmod z < 1 / 10000000000 \<longleftrightarrow> (Re z)\<^sup>2 + (Im z)\<^sup>2 < 1 / 100000000000000000000"
proof -
  have "sqrt ((Re z)\<^sup>2 + (Im z)\<^sup>2) < sqrt ((1 / 10000000000)\<^sup>2)
          \<longleftrightarrow> (Re z)\<^sup>2 + (Im z)\<^sup>2 < (1 / 10000000000)\<^sup>2"
    by (rule real_sqrt_less_iff)
  moreover have "sqrt ((1 / 10000000000)\<^sup>2) = (1 / 10000000000 :: real)"
    by simp
  moreover have "(1 / 10000000000 :: real)\<^sup>2 = 1 / 100000000000000000000"
    by (simp add: power2_eq_square)
  ultimately show ?thesis by (simp only: norm_complex_def)
qed

text \<open>One turn of the loop on a point given by its coordinates.\<close>

lemma square_plus_Complex:
  "Complex a b * Complex a b + c = Complex (a * a - b * b + Re c) (2 * a * b + Im c)"
  by (simp add: complex_eq_iff)

lemma escape_loop_Complex:
  "escape_loop c m (Complex a b) n =
     (if m \<le> n then Completed
      else if 4 < a\<^sup>2 + b\<^sup>2 then Diverged n
      else if 20 < n \<and> (a * a - b * b + Re c)\<^sup>2 + (2 * a * b + Im c)\<^sup>2
                          < 1 / 100000000000000000000 then Periodic
      else escape_loop c m (Complex (a * a - b * b + Re c) (2 * a * b + Im c)) (n + 1))"
proof -
  have "escape_loop c m (Complex a b) n =
     (if m \<le> n then Completed
      else if cmod (Complex a b) > 2 then Diverged n
      else if n > 20 \<and> cmod (Complex a b * Complex a b + c) < 1 / 10000000000 then Periodic
      else escape_loop c m (Complex a b * Complex a b + c) (n + 1))"
    by (rule escape_loop.simps)
  then show ?thesis
    unfolding square_plus_Complex cmod_gt_2_iff cmod_small_iff complex.sel .
qed

lemma escape_loop_Diverged:
  "escape_loop c m z n = Diverged k \<Longrightarrow> n \<le> k \<and> k < m"
proof (induction c m z n rule: escape_loop.induct)
  case (1 c m z n)
  show ?case
  proof (cases "m \<le> n")
    case True
    with "1.prems" show ?thesis by (subst (asm) escape_loop.simps) simp
  next
    case False
    note nm = this
    show ?thesis
    proof (cases "cmod z > 2")
      case True
      with nm "1.prems" show ?thesis by (subst (asm) escape_loop.simps) simp
    next
      case False
      note nz = this
      show ?thesis
      proof (cases "n > 20 \<and> cmod (z * z + c) < 1 / 10000000000")
        case True
        with nm nz "1.prems" show ?thesis by (subst (asm) escape_loop.simps) simp
      next
        case False
        from "1.prems" have "escape_loop c m (z * z + c) (n + 1) = Diverged k"
          by (subst (asm) escape_loop.simps) (use nm nz False in \<open>auto split: if_splits\<close>)
        with "1.IH" [OF nm nz False] show ?thesis by simp
      qed
    qed
  qed
qed

lemma escape_2_2: "1 \<le> m \<Longrightarrow> cell_value m (escape_loop (Complex 2 2) m 0 0) = 1"
proof (cases "m = 1")
  case True
  then show ?thesis
    by (simp add: escape_loop.simps [of _ _ _ 0] escape_loop.simps [of _ _ _ 1] cmod_gt_2_iff int32_def)
next
  case False
  assume "1 \<le> m"
  with False have "2 \<le> m" by simp
  then show ?thesis
    by (simp add: escape_loop.simps [of _ _ _ 0] escape_loop.simps [of _ _ _ 1] cmod_gt_2_iff int32_def)
qed

lemma entry_grid:
  assumes "2 \<le> h" "2 \<le> w" "i < nat h" "j < nat w"
  shows "entry (mandelbrot_calculation h w x0 x1 y0 y1 m) i j =
     Inr (cell_value m (escape_loop (plane_point h w x0 x1 y0 y1 (int i) (int j)) m 0 0))"
  using assms by (simp add: mandelbrot_calculation_Inr entry_def)


lemma cell_value_bounds:
  assumes "0 \<le> m" and "m < 2147483648"
  shows "0 \<le> cell_value m (escape_loop c m 0 0) \<and> cell_value m (escape_loop c m 0 0) \<le> m \<and>
         (cell_value m (escape_loop c m 0 0) = m \<longleftrightarrow>
            escape_loop c m 0 0 = Periodic \<or> escape_loop c m 0 0 = Completed)"
proof (cases "escape_loop c m 0 0")
  case (Diverged k)
  from escape_loop_Diverged [OF this] assms show ?thesis
    by (simp add: Diverged int32_id)
next
  case Periodic
  with assms show ?thesis by (simp add: int32_id)
next
  case Completed
  with assms show ?thesis by (simp add: int32_id)
qed

lemma collect_Inr_iff: "collect rs = Inr vs \<longleftrightarrow> rs = map Inr vs"
proof (induction rs arbitrary: vs)
  case Nil
  show ?case by auto
next
  case (Cons r rs)
  show ?case
  proof (cases r)
    case (Inl e)
    then show ?thesis by (cases vs) auto
  next
    case (Inr v)
    show ?thesis
    proof (cases "collect rs")
      case (Inl e)
      with Cons.IH [of "tl vs"] Inr show ?thesis by (cases vs) auto
    next
      case r: (Inr ws)
      with Cons.IH [of ws] Cons.IH [of "tl vs"] Inr show ?thesis by (cases vs) auto
    qed
  qed
qed

lemma mandelbrot_pixel_cell:
  "mandelbrot_pixel h w x0 x1 y0 y1 m i j = Inr v \<Longrightarrow>
   v = cell_value m (escape_loop (plane_point h w x0 x1 y0 y1 i j) m 0 0)"
  by (auto simp: mandelbrot_pixel_def truediv_def plane_point_def split: if_splits)

lemma map_eq_map_Inr_nth:
  assumes "map f xs = map Inr vs" and "i < length vs"
  shows "i < length xs \<and> f (xs ! i) = Inr (vs ! i)"
proof -
  from assms(1) have len: "length xs = length vs"
    by (metis length_map)
  with assms(2) have i: "i < length xs" by simp
  from assms(1) have "map f xs ! i = map Inr vs ! i" by simp
  with i assms(2) show ?thesis by simp
qed

lemma grid_nth_cell:
  assumes "mandelbrot_calculation h w x0 x1 y0 y1 m = Inr g"
    and "i < length g" and "j < length (g ! i)"
  shows "g ! i ! j = cell_value m (escape_loop (plane_point h w x0 x1 y0 y1 (int i) (int j)) m 0 0)"
proof -
  from assms(1) have
    rows: "map (\<lambda>i. collect (map (\<lambda>j. mandelbrot_pixel h w x0 x1 y0 y1 m (int i) (int j))
             [0..<nat w])) [0..<nat h] = map Inr g"
    by (simp add: mandelbrot_calculation_def collect_Inr_iff split: if_splits)
  from map_eq_map_Inr_nth [OF rows assms(2)]
  have i: "i < length [0..<nat h]"
    and row: "collect (map (\<lambda>j. mandelbrot_pixel h w x0 x1 y0 y1 m (int ([0..<nat h] ! i)) (int j))
          [0..<nat w]) = Inr (g ! i)"
    by blast+
  from i have "[0..<nat h] ! i = i" by simp
  with row have "collect (map (\<lambda>j. mandelbrot_pixel h w x0 x1 y0 y1 m (int i) (int j)) [0..<nat w])
          = Inr (g ! i)"
    by simp
  then have cells: "map (\<lambda>j. mandelbrot_pixel h w x0 x1 y0 y1 m (int i) (int j)) [0..<nat w]
                      = map Inr (g ! i)"
    by (simp add: collect_Inr_iff)
  from map_eq_map_Inr_nth [OF cells assms(3)]
  have j: "j < length [0..<nat w]"
    and cell: "mandelbrot_pixel h w x0 x1 y0 y1 m (int i) (int ([0..<nat w] ! j)) = Inr (g ! i ! j)"
    by blast+
  from j have "[0..<nat w] ! j = j" by simp
  with cell have "mandelbrot_pixel h w x0 x1 y0 y1 m (int i) (int j) = Inr (g ! i ! j)"
    by simp
  from mandelbrot_pixel_cell [OF this] show ?thesis .
qed

section \<open>Results on the engine\<close>

lemma log10_2_lower: "3 / 10 \<le> log 10 (2::real)"
proof -
  have a: "log 10 ((2::real) ^ 10) = real 10 * log 10 2"
    by (rule log_nat_power) simp
  have b: "log 10 ((10::real) ^ 3) = real 3"
    by (rule log_pow_cancel) simp_all
  have "log 10 ((10::real) ^ 3) \<le> log 10 (2 ^ 10)"
    by (rule log_mono) simp_all
  with a b have "real 3 \<le> real 10 * log 10 (2::real)" by (simp only:)
  then show ?thesis by simp
qed

lemma log10_2_upper: "log 10 (2::real) < 1 / 3"
proof -
  have a: "log 10 ((2::real) ^ 3) = real 3 * log 10 2"
    by (rule log_nat_power) simp
  have b: "log 10 (10::real) = 1"
    by (rule log_eq_one) simp_all
  have "(2::real) ^ 3 < 10" by simp
  then have "log 10 ((2::real) ^ 3) < log 10 10"
    by (subst log_less_cancel_iff) simp_all
  with a b have "real 3 * log 10 (2::real) < 1" by (simp only:)
  then show ?thesis by simp
qed

lemma py_int_nonneg: "0 \<le> x \<Longrightarrow> py_int x = \<lfloor>x\<rfloor>"
  by (simp add: py_int_def)

lemma adaptive_iterations_unit_zoom:
  assumes "min_iter s = 50" and "max_max_iter s = 2000"
  shows "adaptive_iterations s 1 = Inr 59"
proof -
  have lo: "59 \<le> 50 + log 10 (2::real) * 30" using log10_2_lower by simp
  have hi: "50 + log 10 (2::real) * 30 < 60" using log10_2_upper by simp
  have "\<lfloor>50 + log 10 (2::real) * 30\<rfloor> = 59"
    by (rule floor_unique) (use lo hi in simp_all)
  moreover have "py_int (50 + log 10 (2::real) * 30) = \<lfloor>50 + log 10 (2::real) * 30\<rfloor>"
    by (rule py_int_nonneg) (use lo in simp)
  ultimately show ?thesis
    using assms by (simp add: adaptive_iterations_def)
qed

lemma MandelbrotEngine_Inr:
  "h \<noteq> 0 \<Longrightarrow> MandelbrotEngine w h =
     Inr \<lparr>width = w, height = h, x_center = - (1 / 2), y_center = 0, zoom = 1,
          aspect_ratio = of_int w / of_int h, max_iter = 100, min_iter = 50,
          max_max_iter = 2000, last_params = None, cached_result = None,
          render_count = 0, total_pixels = w * h\<rparr>"
  by (simp add: MandelbrotEngine_def truediv_def)

lemma get_bounds_Inr:
  "zoom s \<noteq> 0 \<Longrightarrow> aspect_ratio s \<noteq> 0 \<Longrightarrow>
   get_bounds s =
     Inr (x_center s - 3 / zoom s / 2, x_center s + 3 / zoom s / 2,
          y_center s - 3 / zoom s / aspect_ratio s / 2,
          y_center s + 3 / zoom s / aspect_ratio s / 2)"
  by (simp add: get_bounds_def truediv_def)

lemma get_bounds_Inl: "get_bounds s = Inl e \<Longrightarrow> e = ZeroDivisionError"
  by (auto simp: get_bounds_def truediv_def split: if_splits)

lemma generate_hit: "cache_hit s \<Longrightarrow> generate s = Inr (the (cached_result s), s)"
  by (simp add: generate_def)

lemma generate_miss:
  assumes "\<not> cache_hit s" and "generate s = Inr (g, s')"
  shows "\<exists>x_min x_max y_min y_max a.
           get_bounds s = Inr (x_min, x_max, y_min, y_max) \<and>
           adaptive_iterations s (zoom s) = Inr a \<and>
           mandelbrot_calculation (height s) (width s) x_min x_max y_min y_max
             (min (max_iter s) a) = Inr g \<and>
           s' = s\<lparr>last_params := Some (current_params s), cached_result := Some g,
                  render_count := render_count s + 1\<rparr>"
  using assms by (auto simp: generate_def split: sum.splits prod.splits)

lemma generate_miss_total:
  assumes "\<not> cache_hit s" and "2 \<le> width s" and "2 \<le> height s"
    and "0 < zoom s" and "aspect_ratio s \<noteq> 0"
  shows "\<exists>g. generate s =
           Inr (g, s\<lparr>last_params := Some (current_params s), cached_result := Some g,
                      render_count := render_count s + 1\<rparr>)"
proof -
  from assms(4) have z: "zoom s \<noteq> 0" "\<not> zoom s + 1 < 0" "zoom s + 1 \<noteq> 0" by simp_all
  show ?thesis
    using assms(1) 
    by (simp add: generate_def get_bounds_Inr [OF z(1) assms(5)] adaptive_iterations_def z
        mandelbrot_calculation_Inr [OF assms(3,2)])
qed

lemma cache_hit_after_generate:
  assumes "generate s = Inr (g, s')"
  shows "cache_hit s' \<and> cached_result s' = Some g"
proof (cases "cache_hit s")
  case True
  with assms show ?thesis by (auto simp: generate_def cache_hit_def)
next
  case False
  from generate_miss [OF False assms] show ?thesis
    by (auto simp: cache_hit_def current_params_def)
qed




lemma zoom_at_point_zoom:
  "zoom_at_point s x y k = Inr s' \<Longrightarrow>
   zoom s' = max (1 / 10) (min 1000000000000000 (zoom s * k))"
  by (auto simp: zoom_at_point_def Let_def split: sum.splits prod.splits)

lemma zoom_at_point_Inl: "zoom_at_point s x y k = Inl e \<Longrightarrow> e = ZeroDivisionError"
  by (auto simp: zoom_at_point_def Let_def truediv_def dest: get_bounds_Inl
      split: sum.splits prod.splits if_splits)

lemma zoom_at_point_Inr:
  assumes "zoom s \<noteq> 0" and "aspect_ratio s \<noteq> 0" and "width s \<noteq> 0" and "height s \<noteq> 0"
  shows "zoom_at_point s x y k =
     Inr (s\<lparr>x_center := x_center s - 3 / zoom s / 2 + 3 / zoom s * of_int x / of_int (width s),
            y_center := y_center s - 3 / zoom s / aspect_ratio s / 2
                          + 3 / zoom s / aspect_ratio s * of_int y / of_int (height s),
            zoom := max (1 / 10) (min 1000000000000000 (zoom s * k))\<rparr>)"
  using assms
  by (simp add: zoom_at_point_def get_bounds_Inr truediv_def Let_def max_def min_def)

lemma nav_step_zoom_in_range:
  assumes "zoom_in_range s"
  shows "zoom_in_range (nav_step s op)"
proof (cases op)
  case (ZoomAtPoint x y k)
  show ?thesis
  proof (cases "zoom_at_point s x y k")
    case (Inl e)
    with ZoomAtPoint assms show ?thesis by simp
  next
    case (Inr s')
    from zoom_at_point_zoom [OF this] Inr ZoomAtPoint show ?thesis
      by (simp add: zoom_in_range_def)
  qed
next
  case (Pan dx dy)
  with assms show ?thesis
    by (auto simp: pan_def zoom_in_range_def split: sum.splits prod.splits)
next
  case ResetView
  then show ?thesis by (simp add: reset_view_def zoom_in_range_def)
next
  case (Resize w h)
  with assms show ?thesis
    by (simp add: resize_def zoom_in_range_def split: sum.splits)
next
  case (IncreaseIterations f)
  with assms show ?thesis by (simp add: increase_iterations_def zoom_in_range_def)
next
  case (DecreaseIterations f)
  with assms show ?thesis by (simp add: decrease_iterations_def zoom_in_range_def)
qed

lemma foldl_nav_step_zoom_in_range:
  "zoom_in_range s \<Longrightarrow> zoom_in_range (foldl nav_step s ops)"
  by (induction ops arbitrary: s) (simp_all add: nav_step_zoom_in_range)

lemma MandelbrotEngine_zoom_in_range:
  "MandelbrotEngine w h = Inr s \<Longrightarrow> zoom_in_range s"
  by (auto simp: MandelbrotEngine_def truediv_def zoom_in_range_def split: if_splits)

lemma within_tolerance_refl: "within_tolerance a a"
  by (simp add: within_tolerance_def)

lemma within_tolerance_of_view_refl: "within_tolerance_of_view e a a"
  by (simp add: within_tolerance_of_view_def)

lemma nav_step_aspect_known:
  assumes "aspect_known s"
  shows "aspect_known (nav_step s op)"
proof (cases op)
  case (ZoomAtPoint x y k)
  with assms show ?thesis
    by (auto simp: zoom_at_point_def aspect_known_def Let_def split: sum.splits prod.splits)
next
  case (Pan dx dy)
  with assms show ?thesis
    by (auto simp: pan_def aspect_known_def split: sum.splits prod.splits)
next
  case ResetView
  with assms show ?thesis by (simp add: reset_view_def aspect_known_def)
next
  case (Resize w h)
  then show ?thesis
    by (simp add: resize_def truediv_def aspect_known_def)
next
  case (IncreaseIterations f)
  with assms show ?thesis by (simp add: increase_iterations_def aspect_known_def)
next
  case (DecreaseIterations f)
  with assms show ?thesis by (simp add: decrease_iterations_def aspect_known_def)
qed

lemma foldl_nav_step_aspect_known:
  "aspect_known s \<Longrightarrow> aspect_known (foldl nav_step s ops)"
  by (induction ops arbitrary: s) (simp_all add: nav_step_aspect_known)

lemma MandelbrotEngine_aspect_known:
  "MandelbrotEngine w h = Inr s \<Longrightarrow> aspect_known s"
  by (auto simp: MandelbrotEngine_def truediv_def aspect_known_def split: if_splits)

section \<open>Results on the palettes\<close>

lemma rgb_clamp255: "rgb_in_range (clamp255 r, clamp255 g, clamp255 b)"
  by (simp add: rgb_in_range_def clamp255_def)

lemma ocean_color_in_range: "rgb_in_range (ocean_color a t i)"
  by (simp add: ocean_color_def Let_def rgb_clamp255)

lemma fire_color_in_range: "rgb_in_range (fire_color a t i)"
  by (simp add: fire_color_def Let_def rgb_clamp255)

lemma cosmic_color_in_range: "rgb_in_range (cosmic_color a t i)"
  by (simp add: cosmic_color_def Let_def rgb_clamp255)

lemma vintage_color_in_range: "rgb_in_range (vintage_color a t i)"
  by (simp add: vintage_color_def Let_def rgb_clamp255)

lemma ice_color_in_range: "rgb_in_range (ice_color a t i)"
  by (simp add: ice_color_def Let_def rgb_clamp255)

lemma sunset_color_in_range: "rgb_in_range (sunset_color a t i)"
  by (simp add: sunset_color_def Let_def rgb_clamp255)

lemma matrix_color_in_range: "rgb_in_range (matrix_color a t i)"
  by (simp add: matrix_color_def Let_def rgb_clamp255)

lemma unit_times_one_minus:
  fixes v u :: real
  assumes "0 \<le> v" and "v \<le> 1" and "0 \<le> u" and "u \<le> 1"
  shows "0 \<le> v * (1 - u) \<and> v * (1 - u) \<le> 1"
proof -
  from assms have a: "0 \<le> 1 - u" and b: "1 - u \<le> 1" by simp_all
  from assms(1) a have "0 \<le> v * (1 - u)" by (rule mult_nonneg_nonneg)
  moreover from assms(1,2) a b have "v * (1 - u) \<le> 1 * 1"
    by (intro mult_mono) simp_all
  ultimately show ?thesis by simp
qed

lemma channel_in_range:
  assumes "0 \<le> c" and "c \<le> 1"
  shows "0 \<le> py_int (c * 255) \<and> py_int (c * 255) \<le> 255"
proof -
  from assms have "0 \<le> c * 255" and "c * 255 \<le> 255" by simp_all
  then show ?thesis by (simp add: py_int_def floor_le_iff)
qed

lemma colorsys_in_unit:
  assumes h: "0 \<le> h" and s: "0 \<le> s" "s \<le> 1" and v: "0 \<le> v" "v \<le> 1"
  shows "case colorsys_hsv_to_rgb h s v of (r, g, b) \<Rightarrow>
           0 \<le> r \<and> r \<le> 1 \<and> 0 \<le> g \<and> g \<le> 1 \<and> 0 \<le> b \<and> b \<le> 1"
proof -
  let ?f = "h * 6 - of_int (py_int (h * 6))"
  from h have i: "py_int (h * 6) = \<lfloor>h * 6\<rfloor>" by (simp add: py_int_def)
  have f: "0 \<le> ?f" "?f \<le> 1"
    unfolding i by linarith+
  from s f have sf: "0 \<le> s * ?f" "s * ?f \<le> 1"
    by (simp_all add: mult_le_one)
  from f have f1: "0 \<le> 1 - ?f" "1 - ?f \<le> 1" by simp_all
  with s have sf1: "0 \<le> s * (1 - ?f)" "s * (1 - ?f) \<le> 1"
    by (simp_all add: mult_le_one)
  note p = unit_times_one_minus [OF v s]
  note q = unit_times_one_minus [OF v sf]
  note t = unit_times_one_minus [OF v sf1]
  from p q t v show ?thesis
    by (simp add: colorsys_hsv_to_rgb_def Let_def)
qed

lemma hsv_to_rgb_in_range:
  assumes "0 \<le> h" and "0 \<le> s" and "s \<le> 1" and "0 \<le> v" and "v \<le> 1"
  shows "rgb_in_range (hsv_to_rgb h s v)"
proof -
  obtain r g b where c: "colorsys_hsv_to_rgb h s v = (r, g, b)"
    by (cases "colorsys_hsv_to_rgb h s v")
  with colorsys_in_unit [OF assms] have "0 \<le> r" "r \<le> 1" "0 \<le> g" "g \<le> 1" "0 \<le> b" "b \<le> 1"
    by simp_all
  then show ?thesis
    using channel_in_range [of r] channel_in_range [of g] channel_in_range [of b]
    by (simp add: hsv_to_rgb_def c rgb_in_range_def)
qed

lemma rainbow_color_in_range:
  assumes "0 \<le> i" and "i \<le> 1"
  shows "rgb_in_range (rainbow_color a t i)"
proof -
  have s1: "- 1 \<le> sin (t * pi * 4 + a * 2)" "sin (t * pi * 4 + a * 2) \<le> 1" by simp_all
  have s2: "- 1 \<le> sin (t * pi * 2)" "sin (t * pi * 2) \<le> 1" by simp_all
  from s1 have sat: "0 \<le> 8 / 10 + 2 / 10 * sin (t * pi * 4 + a * 2)"
    "8 / 10 + 2 / 10 * sin (t * pi * 4 + a * 2) \<le> 1"
    by linarith+
  from s2 have u: "0 \<le> 5 / 10 + 5 / 10 * sin (t * pi * 2)"
    "5 / 10 + 5 / 10 * sin (t * pi * 2) \<le> 1"
    by linarith+
  from assms u have val: "0 \<le> i * (5 / 10 + 5 / 10 * sin (t * pi * 2))"
    "i * (5 / 10 + 5 / 10 * sin (t * pi * 2)) \<le> 1"
    by (simp_all add: mult_le_one)
  have "rgb_in_range (hsv_to_rgb (frac (t * 6 + a))
          (8 / 10 + 2 / 10 * sin (t * pi * 4 + a * 2))
          (i * (5 / 10 + 5 / 10 * sin (t * pi * 2))))"
    by (rule hsv_to_rgb_in_range) (use sat val in \<open>simp_all add: frac_ge_0\<close>)
  then show ?thesis by (simp add: rainbow_color_def Let_def)
qed

lemma electric_color_in_range:
  assumes "0 \<le> t" and "0 \<le> i"
  shows "rgb_in_range (electric_color a t i)"
proof -
  let ?pulse = "sin (t * pi * 6 + a * 10) * (3 / 10)"
  let ?spark = "sin (t * pi * 20 + a * 15) * (1 / 10)"
  have s1: "- 1 \<le> sin (t * pi * 6 + a * 10)" "sin (t * pi * 6 + a * 10) \<le> 1" by simp_all
  have s2: "- 1 \<le> sin (t * pi * 20 + a * 15)" "sin (t * pi * 20 + a * 15) \<le> 1" by simp_all
  from s2 have "0 \<le> 9 / 10 + ?spark * (1 / 10)" by linarith
  then have sat: "0 \<le> min 1 (9 / 10 + ?spark * (1 / 10))" "min 1 (9 / 10 + ?spark * (1 / 10)) \<le> 1"
    by simp_all
  from s1 assms(1) have "0 \<le> 3 / 10 + 7 / 10 * t + ?pulse * (3 / 10)" by linarith
  with assms(2) have "0 \<le> i * (3 / 10 + 7 / 10 * t + ?pulse * (3 / 10))"
    by (rule mult_nonneg_nonneg)
  then have val: "0 \<le> min 1 (i * (3 / 10 + 7 / 10 * t + ?pulse * (3 / 10)))"
    "min 1 (i * (3 / 10 + 7 / 10 * t + ?pulse * (3 / 10))) \<le> 1"
    by simp_all
  have "rgb_in_range (hsv_to_rgb (frac (6 / 10 + t * (3 / 10) + ?pulse * (1 / 10)))
          (min 1 (9 / 10 + ?spark * (1 / 10)))
          (min 1 (i * (3 / 10 + 7 / 10 * t + ?pulse * (3 / 10)))))"
    by (rule hsv_to_rgb_in_range) (use sat val in \<open>simp_all add: frac_ge_0\<close>)
  then show ?thesis by (simp add: electric_color_def Let_def)
qed

lemma neon_color_in_range:
  assumes "0 \<le> t" and "0 \<le> i"
  shows "rgb_in_range (neon_color a t i)"
proof -
  let ?glow = "sin (t * pi * 8 + a * 6) * (2 / 10)"
  have s1: "- 1 \<le> sin (t * pi * 8 + a * 6)" "sin (t * pi * 8 + a * 6) \<le> 1" by simp_all
  from s1 assms(1) have "0 \<le> 7 / 10 + 3 / 10 * t + ?glow" by linarith
  with assms(2) have "0 \<le> i * (7 / 10 + 3 / 10 * t + ?glow)"
    by (rule mult_nonneg_nonneg)
  then have val: "0 \<le> min 1 (i * (7 / 10 + 3 / 10 * t + ?glow))"
    "min 1 (i * (7 / 10 + 3 / 10 * t + ?glow)) \<le> 1"
    by simp_all
  have "rgb_in_range (hsv_to_rgb (frac (t * (8 / 10) + a * (1 / 10))) 1
          (min 1 (i * (7 / 10 + 3 / 10 * t + ?glow))))"
    by (rule hsv_to_rgb_in_range) (use val in \<open>simp_all add: frac_ge_0\<close>)
  then show ?thesis by (simp add: neon_color_def Let_def)
qed

lemma color_functions_in_range:
  assumes "0 \<le> t" and "0 \<le> i" and "i \<le> 1"
  shows "rgb_in_range (color_functions p a t i)"
  using assms
  by (cases p)
     (simp_all add: rainbow_color_in_range ocean_color_in_range fire_color_in_range
        electric_color_in_range cosmic_color_in_range vintage_color_in_range
        neon_color_in_range ice_color_in_range sunset_color_in_range matrix_color_in_range)

lemma black_in_range: "rgb_in_range (0, 0, 0)"
  by (simp add: rgb_in_range_def)

lemma cache_sound_store:
  assumes "cache_sound s" and "m \<le> v \<longrightarrow> c = (0, 0, 0)" and "0 \<le> v \<longrightarrow> rgb_in_range c"
  shows "cache_sound (cache_store s (v, m, p, b) c)"
  using assms by (auto simp: cache_sound_def cache_store_def)

lemma intensity_unit:
  fixes t :: real
  shows "0 \<le> (if t < 0 then 1 else min 1 (sqrt t * (12 / 10))) \<and>
         (if t < 0 then 1 else min 1 (sqrt t * (12 / 10))) \<le> 1"
  by simp

lemma get_color_sound:
  assumes "cache_sound s" and "get_color s v m = Inr (c, s')"
  shows "cache_sound s' \<and> (m \<le> v \<longrightarrow> c = (0, 0, 0)) \<and> (0 \<le> v \<longrightarrow> rgb_in_range c)"
proof (cases "map_of (color_cache s)
                (v, m, current_palette_index s, py_int (animation_time s * 100))")
  case (Some c0)
  with assms(2) have eq: "c = c0" "s' = s" by (simp_all add: get_color_def)
  from Some have "((v, m, current_palette_index s, py_int (animation_time s * 100)), c0)
                    \<in> set (color_cache s)"
    by (rule map_of_SomeD)
  with assms(1) eq show ?thesis by (auto simp: cache_sound_def)
next
  case None
  show ?thesis
  proof (cases "m \<le> v")
    case True
    with None assms(2) have eq: "c = (0, 0, 0)"
      "s' = cache_store s (v, m, current_palette_index s, py_int (animation_time s * 100)) (0, 0, 0)"
      by (auto simp: get_color_def)
    from cache_sound_store [OF assms(1), of m v "(0, 0, 0)"] eq show ?thesis
      by (simp add: black_in_range)
  next
    case False
    with None assms(2) have m0: "m \<noteq> 0"
      by (auto simp: get_color_def truediv_def split: if_splits)
    let ?t = "real_of_int v / real_of_int m"
    let ?i = "if ?t < 0 then 1 else min 1 (sqrt ?t * (12 / 10))"
    let ?c = "color_functions (current_palette s) (animation_time s) ?t ?i"
    from None False m0 assms(2) have eq: "c = ?c"
      "s' = cache_store s (v, m, current_palette_index s, py_int (animation_time s * 100)) ?c"
      by (auto simp: get_color_def truediv_def Let_def)
    have rng: "rgb_in_range ?c" if "0 \<le> v"
    proof -
      from that False have "0 < m" by simp
      with that have t: "0 \<le> ?t" by simp
      from intensity_unit [of ?t] have "0 \<le> ?i" "?i \<le> 1" by blast+
      with t show ?thesis by (intro color_functions_in_range)
    qed
    from cache_sound_store [OF assms(1), of m v ?c] False rng eq show ?thesis
      by simp
  qed
qed

lemma get_color_total:
  assumes "0 \<le> v \<or> m \<le> v"
  shows "\<exists>r. get_color s v m = Inr r"
proof (cases "map_of (color_cache s)
                (v, m, current_palette_index s, py_int (animation_time s * 100))")
  case (Some c0)
  then have "get_color s v m = Inr (c0, s)" by (simp add: get_color_def)
  then show ?thesis ..
next
  case None
  let ?key = "(v, m, current_palette_index s, py_int (animation_time s * 100))"
  show ?thesis
  proof (cases "m \<le> v")
    case True
    with None have "get_color s v m = Inr ((0, 0, 0), cache_store s ?key (0, 0, 0))"
      by (simp add: get_color_def)
    then show ?thesis ..
  next
    case False
    with assms have "m \<noteq> 0" by auto
    let ?t = "real_of_int v / real_of_int m"
    let ?c = "color_functions (current_palette s) (animation_time s) ?t
                (if ?t < 0 then 1 else min 1 (sqrt ?t * (12 / 10)))"
    from None False \<open>m \<noteq> 0\<close> have "get_color s v m = Inr (?c, cache_store s ?key ?c)"
      by (simp add: get_color_def truediv_def Let_def)
    then show ?thesis ..
  qed
qed

lemma next_palette_sound: "cache_sound (next_palette s)"
  by (simp add: next_palette_def cache_sound_def Let_def)

lemma color_map_loop_sound:
  "cache_sound s \<Longrightarrow> cache_sound (snd (color_map_loop s vs mx cm))"
proof (induction vs arbitrary: s cm)
  case Nil
  then show ?case by simp
next
  case (Cons v vs)
  show ?case
  proof (cases "get_color s v mx")
    case (Inl e)
    with Cons.prems show ?thesis by simp
  next
    case (Inr r)
    obtain c s' where r: "r = (c, s')" by (cases r)
    from get_color_sound [OF Cons.prems Inr [unfolded r]] have "cache_sound s'" by simp
    from Cons.IH [OF this] Inr r show ?thesis by simp
  qed
qed

lemma snd_case_result:
  "snd (case r of (Inl e, s2) \<Rightarrow> (Inl e, s2) | (Inr cm, s2) \<Rightarrow> (Inr (f cm), s2)) = snd r"
  by (cases r; cases "fst r") auto

lemma apply_colors_sound:
  assumes "cache_sound s"
  shows "cache_sound (snd (apply_colors s g))"
proof -
  let ?t1 = "animation_time s + animation_speed s"
  let ?s1 = "s\<lparr>animation_time := (if ?t1 > 2 * pi then 0 else ?t1)\<rparr>"
  from assms have s1: "cache_sound ?s1" by (simp add: cache_sound_def)
  show ?thesis
  proof (cases "concat g = []")
    case True
    have "snd (apply_colors s g) = ?s1"
      unfolding apply_colors_def Let_def if_P [OF True] by simp
    with s1 show ?thesis by simp
  next
    case False
    let ?r = "color_map_loop ?s1 (sort (remdups (concat g)))
                (fold max (tl (concat g)) (hd (concat g))) []"
    from color_map_loop_sound [OF s1] have "cache_sound (snd ?r)" .
    moreover have "snd (apply_colors s g) = snd ?r"
      unfolding apply_colors_def Let_def if_not_P [OF False] by (rule snd_case_result)
    ultimately show ?thesis by simp
  qed
qed

lemma palette_step_sound: "cache_sound s \<Longrightarrow> cache_sound (palette_step s op)"
proof (cases op)
  case NextPalette
  then show ?thesis by (simp add: next_palette_sound)
next
  case (GetColor v m)
  assume s: "cache_sound s"
  show ?thesis
  proof (cases "get_color s v m")
    case (Inl e)
    with s GetColor show ?thesis by simp
  next
    case (Inr r)
    obtain c s' where r: "r = (c, s')" by (cases r)
    from get_color_sound [OF s Inr [unfolded r]] Inr r GetColor show ?thesis by simp
  qed
next
  case (ApplyColors g)
  assume "cache_sound s"
  from apply_colors_sound [OF this] ApplyColors show ?thesis by simp
qed

lemma ColorPalette_sound: "cache_sound ColorPalette"
  by (simp add: ColorPalette_def cache_sound_def)

lemma reachable_sound: "cache_sound (foldl palette_step ColorPalette ops)"
proof -
  have "cache_sound s \<Longrightarrow> cache_sound (foldl palette_step s ops)" for s
    by (induction ops arbitrary: s) (simp_all add: palette_step_sound)
  from this [OF ColorPalette_sound] show ?thesis .
qed

section \<open>The claims\<close>

subsection \<open>C1\<close>

text \<open>
  C1. The claim: with \<open>width == 1\<close> or \<open>height == 1\<close> the pixel-to-plane mapping does
  not divide by zero, the single-pixel axis being a fixed coordinate, and a grid is
  returned. The code has no such guard: with one column the first coordinate line
  divides by \<open>width - 1 = 0\<close>, with one row the second divides by \<open>height - 1 = 0\<close>,
  and the call raises instead of returning a grid. An engine resized to one pixel
  reaches it: \<open>resize(1, 1)\<close> returns, and the \<open>generate\<close> after it raises.
\<close>

theorem single_pixel_axis_raises:
  "mandelbrot_calculation 1 1 (- 2) 1 (- 1) 1 50 = Inl ZeroDivisionError \<and>
   mandelbrot_calculation 3 1 (- 2) 1 (- 1) 1 50 = Inl ZeroDivisionError \<and>
   mandelbrot_calculation 1 3 (- 2) 1 (- 1) 1 50 = Inl ZeroDivisionError \<and>
   fst (resize (projr (MandelbrotEngine 4 3)) 1 1) = None \<and>
   generate (snd (resize (projr (MandelbrotEngine 4 3)) 1 1)) = Inl ZeroDivisionError"
proof -
  have a: "mandelbrot_calculation 1 1 (- 2) 1 (- 1) 1 50 = Inl ZeroDivisionError"
    by (rule mandelbrot_calculation_width_1) simp
  have b: "mandelbrot_calculation 3 1 (- 2) 1 (- 1) 1 50 = Inl ZeroDivisionError"
    by (rule mandelbrot_calculation_width_1) simp
  have c: "mandelbrot_calculation 1 3 (- 2) 1 (- 1) 1 50 = Inl ZeroDivisionError"
    by (rule mandelbrot_calculation_height_1) simp
  let ?R = "resize (projr (MandelbrotEngine 4 3)) 1 1"
  have R: "?R = (None, \<lparr>width = 1, height = 1, x_center = - (1 / 2), y_center = 0, zoom = 1,
          aspect_ratio = 1, max_iter = 100, min_iter = 50,
          max_max_iter = 2000, last_params = None, cached_result = None,
          render_count = 0, total_pixels = 1\<rparr>)"
    by (simp add: MandelbrotEngine_Inr resize_def truediv_def)
  have d: "fst ?R = None" by (simp add: R)
  have ad: "adaptive_iterations (snd ?R) (zoom (snd ?R)) = Inr 59"
    using adaptive_iterations_unit_zoom [of "snd ?R"] by (simp add: R)
  have bd: "get_bounds (snd ?R) = Inr (- 2, 1, - (3 / 2), 3 / 2)"
    by (simp add: R get_bounds_def truediv_def)
  have "mandelbrot_calculation (height (snd ?R)) (width (snd ?R)) (- 2) 1 (- (3 / 2)) (3 / 2)
          (min (max_iter (snd ?R)) 59) = Inl ZeroDivisionError"
    unfolding R by (simp add: mandelbrot_calculation_width_1)
  with ad bd have e: "generate (snd ?R) = Inl ZeroDivisionError"
    by (simp add: generate_def cache_hit_def R)
  from a b c d e show ?thesis by blast
qed

subsection \<open>C2\<close>

text \<open>
  C2, as stated, fails. The claim: \<open>zoom_at_point(x, y, k)\<close> followed by
  \<open>zoom_at_point(x, y, 1/k)\<close> restores zoom and centre within the relative tolerance
  \<open>1e-9\<close>. Each call first moves the centre to the plane point under \<open>(x, y)\<close>. On a
  new four-by-four engine, at the corner \<open>(0, 0)\<close> with \<open>k = 2\<close>: the zoom goes from
  \<open>1\<close> to \<open>2\<close> and back, and \<open>x_center\<close> goes from \<open>-0.5\<close> to \<open>-2.75\<close>, outside
  the tolerance also when it is taken relative to the extent \<open>3\<close> of the view. Every
  number on the way is a binary fraction, so the doubles of the program take the same
  values.
\<close>

theorem zoom_round_trip_counterexample:
  "zoom (foldl nav_step (projr (MandelbrotEngine 4 4)) [ZoomAtPoint 0 0 2]) = 2 \<and>
   zoom (foldl nav_step (projr (MandelbrotEngine 4 4)) [ZoomAtPoint 0 0 2, ZoomAtPoint 0 0 (1 / 2)]) = 1 \<and>
   x_center (projr (MandelbrotEngine 4 4)) = - (1 / 2) \<and>
   x_center (foldl nav_step (projr (MandelbrotEngine 4 4))
      [ZoomAtPoint 0 0 2, ZoomAtPoint 0 0 (1 / 2)]) = - (11 / 4) \<and>
   \<not> within_tolerance (- (11 / 4)) (- (1 / 2)) \<and>
   \<not> within_tolerance_of_view 3 (- (11 / 4)) (- (1 / 2))"
  by (simp add: MandelbrotEngine_Inr zoom_at_point_Inr within_tolerance_def
      within_tolerance_of_view_def)

text \<open>
  C2, amended: when neither call is clamped, \<open>zoom_at_point(x, y, k)\<close> followed by
  \<open>zoom_at_point(x, y, 1/k)\<close> restores the zoom within the relative tolerance
  \<open>1e-9\<close>. When \<open>(x, y)\<close> is the middle of the screen, \<open>2 x = width\<close> and
  \<open>2 y = height\<close>, it restores the centre within \<open>1e-9\<close>, relative to the larger of
  the coordinate and of the extent of the wider of the two views. For another point
  the centre is not restored in general: each call sets the centre to the plane point
  under \<open>(x, y)\<close> in the bounds the viewport has when the call begins.
\<close>

theorem zoom_round_trip:
  assumes "zoom_at_point s x y k = Inr s1" and "zoom_at_point s1 x y (1 / k) = Inr s2"
    and "1 / 10 \<le> zoom s" and "zoom s \<le> 1000000000000000"
    and "1 / 10 \<le> zoom s * k" and "zoom s * k \<le> 1000000000000000"
  shows "within_tolerance (zoom s2) (zoom s) \<and>
         (2 * x = width s \<and> 2 * y = height s \<longrightarrow>
            within_tolerance_of_view (max (3 / zoom s) (3 / zoom s1))
              (x_center s2) (x_center s) \<and>
            within_tolerance_of_view
              (max \<bar>3 / zoom s / aspect_ratio s\<bar> \<bar>3 / zoom s1 / aspect_ratio s1\<bar>)
              (y_center s2) (y_center s)) \<and>
         (\<exists>x_min x_max y_min y_max.
            get_bounds s = Inr (x_min, x_max, y_min, y_max) \<and>
            x_center s1 = x_min + (x_max - x_min) * of_int x / of_int (width s) \<and>
            y_center s1 = y_min + (y_max - y_min) * of_int y / of_int (height s)) \<and>
         (\<exists>x_min x_max y_min y_max.
            get_bounds s1 = Inr (x_min, x_max, y_min, y_max) \<and>
            x_center s2 = x_min + (x_max - x_min) * of_int x / of_int (width s1) \<and>
            y_center s2 = y_min + (y_max - y_min) * of_int y / of_int (height s1))"
proof -
  from assms(3) have z: "0 < zoom s" by simp
  from assms(5) have "0 < zoom s * k" by simp
  from zero_less_mult_pos [OF this z] have k: "0 < k" .
  have nz: "aspect_ratio s \<noteq> 0" "width s \<noteq> 0" "height s \<noteq> 0"
    using assms(1)
    by (auto simp: zoom_at_point_def get_bounds_def truediv_def Let_def
        split: sum.splits prod.splits if_splits)
  from z have z0: "zoom s \<noteq> 0" by simp
  from assms(5,6) have clamp1: "max (1 / 10) (min 1000000000000000 (zoom s * k)) = zoom s * k"
    by simp
  from assms(1) have s1: "s1 = s\<lparr>x_center := x_center s - 3 / zoom s / 2 + 3 / zoom s * of_int x / of_int (width s),
            y_center := y_center s - 3 / zoom s / aspect_ratio s / 2
                          + 3 / zoom s / aspect_ratio s * of_int y / of_int (height s),
            zoom := zoom s * k\<rparr>"
    unfolding zoom_at_point_Inr [OF z0 nz] clamp1 by simp
  have z1: "zoom s1 \<noteq> 0" "aspect_ratio s1 \<noteq> 0" "width s1 \<noteq> 0" "height s1 \<noteq> 0"
    using z k nz by (simp_all add: s1)
  have inv_k: "zoom s1 * (1 / k) = zoom s" using k by (simp add: s1)
  from assms(3,4) have clamp2: "max (1 / 10) (min 1000000000000000 (zoom s1 * (1 / k))) = zoom s"
    unfolding inv_k by simp
  from assms(2) have s2: "s2 = s1\<lparr>x_center := x_center s1 - 3 / zoom s1 / 2 + 3 / zoom s1 * of_int x / of_int (width s1),
            y_center := y_center s1 - 3 / zoom s1 / aspect_ratio s1 / 2
                          + 3 / zoom s1 / aspect_ratio s1 * of_int y / of_int (height s1),
            zoom := zoom s\<rparr>"
    unfolding zoom_at_point_Inr [OF z1] clamp2 by simp
  have zz: "within_tolerance (zoom s2) (zoom s)"
    by (simp add: s2 within_tolerance_refl)
  have mid: "within_tolerance_of_view (max (3 / zoom s) (3 / zoom s1))
        (x_center s2) (x_center s) \<and>
      within_tolerance_of_view
        (max \<bar>3 / zoom s / aspect_ratio s\<bar> \<bar>3 / zoom s1 / aspect_ratio s1\<bar>)
        (y_center s2) (y_center s)"
    if m: "2 * x = width s \<and> 2 * y = height s"
  proof -
    from m have "2 * real_of_int x = real_of_int (width s)" "2 * real_of_int y = real_of_int (height s)"
      by (metis of_int_mult of_int_numeral)+
    with nz have h: "real_of_int x / real_of_int (width s) = 1 / 2"
      "real_of_int y / real_of_int (height s) = 1 / 2"
      by (simp_all add: field_simps)
    have "x_center s2 = x_center s"
      using z k nz h(1) by (simp add: s2 s1 field_simps)
    moreover have "y_center s2 = y_center s"
      using z k nz h(2) by (simp add: s2 s1 field_simps)
    ultimately show ?thesis by (simp add: within_tolerance_of_view_refl)
  qed
  have b0: "get_bounds s = Inr (x_center s - 3 / zoom s / 2, x_center s + 3 / zoom s / 2,
          y_center s - 3 / zoom s / aspect_ratio s / 2,
          y_center s + 3 / zoom s / aspect_ratio s / 2)"
    by (rule get_bounds_Inr [OF z0 nz(1)])
  have c1: "x_center s1 = (x_center s - 3 / zoom s / 2)
              + ((x_center s + 3 / zoom s / 2) - (x_center s - 3 / zoom s / 2))
                * of_int x / of_int (width s)"
    "y_center s1 = (y_center s - 3 / zoom s / aspect_ratio s / 2)
              + ((y_center s + 3 / zoom s / aspect_ratio s / 2)
                  - (y_center s - 3 / zoom s / aspect_ratio s / 2))
                * of_int y / of_int (height s)"
    by (simp_all add: s1)
  have b1: "get_bounds s1 = Inr (x_center s1 - 3 / zoom s1 / 2, x_center s1 + 3 / zoom s1 / 2,
          y_center s1 - 3 / zoom s1 / aspect_ratio s1 / 2,
          y_center s1 + 3 / zoom s1 / aspect_ratio s1 / 2)"
    by (rule get_bounds_Inr [OF z1(1,2)])
  have c2: "x_center s2 = (x_center s1 - 3 / zoom s1 / 2)
              + ((x_center s1 + 3 / zoom s1 / 2) - (x_center s1 - 3 / zoom s1 / 2))
                * of_int x / of_int (width s1)"
    "y_center s2 = (y_center s1 - 3 / zoom s1 / aspect_ratio s1 / 2)
              + ((y_center s1 + 3 / zoom s1 / aspect_ratio s1 / 2)
                  - (y_center s1 - 3 / zoom s1 / aspect_ratio s1 / 2))
                * of_int y / of_int (height s1)"
    by (simp_all add: s2)
  from zz mid b0 c1 b1 c2 show ?thesis by blast
qed

text \<open>
  C2, the amended statement at the middle of a four-by-four screen with \<open>k = 4\<close>:
  zoom and centre come back within the tolerance.
\<close>

theorem zoom_round_trip_witness:
  "zoom_at_point (projr (MandelbrotEngine 4 4)) 2 2 4
     = Inr (projr (zoom_at_point (projr (MandelbrotEngine 4 4)) 2 2 4)) \<and>
   zoom_at_point (projr (zoom_at_point (projr (MandelbrotEngine 4 4)) 2 2 4)) 2 2 (1 / 4)
     = Inr (projr (zoom_at_point (projr (zoom_at_point (projr (MandelbrotEngine 4 4)) 2 2 4))
              2 2 (1 / 4))) \<and>
   zoom (projr (zoom_at_point (projr (MandelbrotEngine 4 4)) 2 2 4)) = 4 \<and>
   within_tolerance
     (zoom (projr (zoom_at_point (projr (zoom_at_point (projr (MandelbrotEngine 4 4)) 2 2 4))
              2 2 (1 / 4))))
     (zoom (projr (MandelbrotEngine 4 4))) \<and>
   within_tolerance_of_view 3
     (x_center (projr (zoom_at_point (projr (zoom_at_point (projr (MandelbrotEngine 4 4)) 2 2 4))
              2 2 (1 / 4))))
     (x_center (projr (MandelbrotEngine 4 4))) \<and>
   within_tolerance_of_view 3
     (y_center (projr (zoom_at_point (projr (zoom_at_point (projr (MandelbrotEngine 4 4)) 2 2 4))
              2 2 (1 / 4))))
     (y_center (projr (MandelbrotEngine 4 4)))"
proof -
  let ?E = "projr (MandelbrotEngine 4 4)"
  let ?E1 = "projr (zoom_at_point ?E 2 2 4)"
  let ?E2 = "projr (zoom_at_point ?E1 2 2 (1 / 4))"
  have E: "?E = \<lparr>width = 4, height = 4, x_center = - (1 / 2), y_center = 0, zoom = 1,
          aspect_ratio = 1, max_iter = 100, min_iter = 50,
          max_max_iter = 2000, last_params = None, cached_result = None,
          render_count = 0, total_pixels = 16\<rparr>"
    by (simp add: MandelbrotEngine_Inr)
  have 1: "zoom_at_point ?E 2 2 4 = Inr ?E1"
    by (simp add: E zoom_at_point_Inr)
  have z1: "zoom ?E1 = 4" "aspect_ratio ?E1 = 1" "width ?E1 = 4" "height ?E1 = 4"
    by (simp_all add: E zoom_at_point_Inr)
  have 2: "zoom_at_point ?E1 2 2 (1 / 4) = Inr ?E2"
    by (simp add: z1 zoom_at_point_Inr)
  have r: "1 / 10 \<le> zoom ?E" "zoom ?E \<le> 1000000000000000"
    "1 / 10 \<le> zoom ?E * 4" "zoom ?E * 4 \<le> 1000000000000000"
    by (simp_all add: E)
  have m: "2 * (2::int) = width ?E \<and> 2 * (2::int) = height ?E"
    by (simp add: E)
  have e: "max (3 / zoom ?E) (3 / zoom ?E1) = 3"
    "max \<bar>3 / zoom ?E / aspect_ratio ?E\<bar> \<bar>3 / zoom ?E1 / aspect_ratio ?E1\<bar> = 3"
    by (simp_all add: z1) (simp_all add: E)
  from zoom_round_trip [OF 1 2 r] m
  have "within_tolerance (zoom ?E2) (zoom ?E)"
    "within_tolerance_of_view (max (3 / zoom ?E) (3 / zoom ?E1)) (x_center ?E2) (x_center ?E)"
    "within_tolerance_of_view
       (max \<bar>3 / zoom ?E / aspect_ratio ?E\<bar> \<bar>3 / zoom ?E1 / aspect_ratio ?E1\<bar>)
       (y_center ?E2) (y_center ?E)"
    by blast+
  then have "within_tolerance (zoom ?E2) (zoom ?E)"
    "within_tolerance_of_view 3 (x_center ?E2) (x_center ?E)"
    "within_tolerance_of_view 3 (y_center ?E2) (y_center ?E)"
    unfolding e by blast+
  with 1 2 z1 show ?thesis by blast
qed

subsection \<open>C3\<close>

text \<open>
  C3, as stated, fails. The claim ends: \<open>adaptive_iterations(1.0) == 50\<close>. The code
  returns \<open>int(50 + log10(2) * 30) = int(59.03...) = 59\<close>, which is also what the
  claim's own formula gives.
\<close>

theorem adaptive_iterations_unit_zoom_counterexample:
  "adaptive_iterations (projr (MandelbrotEngine 4 3)) 1 = Inr 59"
  by (rule adaptive_iterations_unit_zoom) (simp_all add: MandelbrotEngine_Inr)

text \<open>
  C3, amended: for every \<open>zoom \<ge> 0\<close>, \<open>adaptive_iterations(zoom)\<close> equals
  \<open>clamp(floor(50 + log10(zoom + 1) * 30), 50, 2000)\<close>, and
  \<open>adaptive_iterations(1.0) == 59\<close>. The code has the upper clamp only; for
  \<open>zoom \<ge> 0\<close> the logarithm is not negative, which keeps the value at \<open>50\<close> or more.
\<close>

theorem adaptive_iterations_formula:
  assumes "min_iter s = 50" and "max_max_iter s = 2000" and "0 \<le> z"
  shows "adaptive_iterations s z = Inr (spec_adaptive_iterations z) \<and>
         adaptive_iterations s 1 = Inr 59"
proof -
  from assms(3) have "0 \<le> log 10 (z + 1)" by simp
  then have x: "50 \<le> 50 + log 10 (z + 1) * 30" by simp
  then have "py_int (50 + log 10 (z + 1) * 30) = \<lfloor>50 + log 10 (z + 1) * 30\<rfloor>"
    by (intro py_int_nonneg) simp
  moreover from x have "50 \<le> \<lfloor>50 + log 10 (z + 1) * 30\<rfloor>"
    by (simp add: le_floor_iff)
  ultimately have "adaptive_iterations s z = Inr (spec_adaptive_iterations z)"
    using assms by (simp add: adaptive_iterations_def spec_adaptive_iterations_def clamp_def min.commute)
  with adaptive_iterations_unit_zoom [OF assms(1,2)] show ?thesis by simp
qed

text \<open>C3, the amended statement on a new engine at \<open>zoom = 3\<close>.\<close>

theorem adaptive_iterations_formula_witness:
  "min_iter (projr (MandelbrotEngine 4 3)) = 50 \<and>
   max_max_iter (projr (MandelbrotEngine 4 3)) = 2000 \<and> (0::real) \<le> 3 \<and>
   adaptive_iterations (projr (MandelbrotEngine 4 3)) 3 = Inr (spec_adaptive_iterations 3) \<and>
   adaptive_iterations (projr (MandelbrotEngine 4 3)) 1 = Inr 59"
proof -
  have a: "min_iter (projr (MandelbrotEngine 4 3)) = 50"
    and b: "max_max_iter (projr (MandelbrotEngine 4 3)) = 2000"
    by (simp_all add: MandelbrotEngine_Inr)
  from adaptive_iterations_formula [OF a b, of 3] a b show ?thesis by simp
qed

subsection \<open>C4\<close>

text \<open>
  C4, as stated, fails. The claim: a pixel whose plane coordinate is \<open>(2, 2)\<close> gets the
  entry \<open>0\<close>. The loop tests \<open>abs(z)\<close> before it updates \<open>z\<close>, and \<open>z\<close> starts at
  \<open>0\<close>: at index \<open>0\<close> the test fails for every \<open>c\<close>, and \<open>c = 2 + 2i\<close> is only
  seen at index \<open>1\<close>. On the two-by-two grid over \<open>[0, 2] \<times> [0, 2]\<close> the pixel
  \<open>(1, 1)\<close> lies at \<open>(2, 2)\<close> and its entry is \<open>1\<close>.
\<close>

theorem pixel_2_2_entry_counterexample:
  "plane_point 2 2 0 2 0 2 1 1 = Complex 2 2 \<and>
   entry (mandelbrot_calculation 2 2 0 2 0 2 50) 1 1 = Inr 1"
proof -
  have p: "plane_point 2 2 0 2 0 2 1 1 = Complex 2 2"
    by (simp add: plane_point_def)
  have "entry (mandelbrot_calculation 2 2 0 2 0 2 50) 1 1 =
          Inr (cell_value 50 (escape_loop (plane_point 2 2 0 2 0 2 (int 1) (int 1)) 50 0 0))"
    by (rule entry_grid) simp_all
  with p show ?thesis by (simp add: escape_2_2)
qed

text \<open>
  C4, amended: for a pixel whose plane coordinate is \<open>(2, 2)\<close> the entry is
  \<open>min(max_iter, 1)\<close>: it is \<open>1\<close> for every \<open>max_iter \<ge> 1\<close>, and \<open>0\<close> only when
  \<open>max_iter = 0\<close> and the loop body never runs.
\<close>

theorem pixel_2_2_entry:
  assumes "2 \<le> h" and "2 \<le> w" and "i < nat h" and "j < nat w"
    and "plane_point h w x0 x1 y0 y1 (int i) (int j) = Complex 2 2"
    and "0 \<le> m"
  shows "entry (mandelbrot_calculation h w x0 x1 y0 y1 m) i j = Inr (min m 1)"
proof (cases "m = 0")
  case True
  have "escape_loop (Complex 2 2) 0 0 0 = Completed"
    by (subst escape_loop.simps) simp
  with True assms show ?thesis
    by (simp add: entry_grid int32_def)
next
  case False
  with assms have m: "1 \<le> m" by simp
  with assms show ?thesis
    by (simp add: entry_grid escape_2_2)
qed

text \<open>C4, the amended statement at the corner pixel of a three-by-three grid.\<close>

theorem pixel_2_2_entry_witness:
  "(2::int) \<le> 3 \<and> (2::nat) < nat 3 \<and> plane_point 3 3 (- 2) 2 (- 2) 2 (int 2) (int 2) = Complex 2 2 \<and>
   (0::int) \<le> 7 \<and> entry (mandelbrot_calculation 3 3 (- 2) 2 (- 2) 2 7) 2 2 = Inr (min 7 1)"
proof -
  have p: "plane_point 3 3 (- 2) 2 (- 2) 2 (int 2) (int 2) = Complex 2 2"
    by (simp add: plane_point_def)
  have "entry (mandelbrot_calculation 3 3 (- 2) 2 (- 2) 2 7) 2 2 = Inr (min 7 1)"
    by (rule pixel_2_2_entry [OF _ _ _ _ p]) simp_all
  with p show ?thesis by simp
qed

subsection \<open>C5\<close>

text \<open>
  C5. For every palette, \<open>palette_id\<close> in \<open>0..9\<close>, every \<open>t\<close> and intensity in
  \<open>[0, 1]\<close> and every animation time, each channel of the triple of the palette
  function lies in \<open>[0, 255]\<close>; and so does each channel of what \<open>get_color\<close> returns
  for \<open>iterations \<ge> 0\<close> (then \<open>t\<close> and the intensity it computes are in \<open>[0, 1]\<close>),
  on every palette state that keeps the invariant of the cache, in particular on every
  state the commands reach from a new palette.
\<close>

theorem palette_channels_in_range:
  "(k < 10 \<and> 0 \<le> t \<and> t \<le> 1 \<and> 0 \<le> i \<and> i \<le> 1 \<longrightarrow>
      rgb_in_range (color_functions (palettes ! k) a t i)) \<and>
   (0 \<le> v \<and> cache_sound s \<longrightarrow>
      (\<exists>c s'. get_color s v m = Inr (c, s') \<and> rgb_in_range c \<and> cache_sound s')) \<and>
   (0 \<le> v \<longrightarrow>
      (\<exists>c s'. get_color (foldl palette_step ColorPalette ops) v m = Inr (c, s') \<and>
               rgb_in_range c))"
proof -
  have a: "\<exists>c s'. get_color s v m = Inr (c, s') \<and> rgb_in_range c \<and> cache_sound s'"
    if "0 \<le> v" and "cache_sound s" for s
  proof -
    from get_color_total [of v m s] that(1) obtain c s' where g: "get_color s v m = Inr (c, s')"
      by (metis surj_pair)
    from get_color_sound [OF that(2) g] that(1) g show ?thesis by auto
  qed
  from a [OF _ reachable_sound] a color_functions_in_range [of t i "palettes ! k" a]
  show ?thesis by blast
qed

text \<open>
  C5, at the fire palette (\<open>palette_id = 2\<close>) with \<open>t = 0.5\<close> and intensity \<open>0.75\<close>,
  and for \<open>get_color(3, 10)\<close> after three commands.
\<close>

theorem palette_channels_in_range_witness:
  "rgb_in_range (color_functions (palettes ! 2) 3 (1 / 2) (3 / 4)) \<and>
   (\<exists>c s'. get_color (foldl palette_step ColorPalette
              [NextPalette, GetColor 3 10, ApplyColors [[1, 2], [2, 5]]]) 3 10 = Inr (c, s') \<and>
            rgb_in_range c)"
proof -
  have h: "(2::nat) < 10 \<and> (0::real) \<le> 1 / 2 \<and> (1 / 2 :: real) \<le> 1 \<and>
           (0::real) \<le> 3 / 4 \<and> (3 / 4 :: real) \<le> 1"
    and v: "(0::int) \<le> 3"
    by simp_all
  from palette_channels_in_range [where k = 2 and t = "1 / 2" and i = "3 / 4" and a = 3
      and v = 3 and m = 10
      and ops = "[NextPalette, GetColor 3 10, ApplyColors [[1, 2], [2, 5]]]"]
  show ?thesis using h v by blast
qed

subsection \<open>C6\<close>

text \<open>
  C6, as stated, fails. The claim: for every \<open>max_iter \<ge> 0\<close> every entry of the grid
  lies in \<open>[0, max_iter]\<close>. The cells are \<open>int32\<close>: with \<open>max_iter = 2^31\<close> the
  centre pixel of the three-by-three grid over \<open>[-1, 1] \<times> [-1, 1]\<close>, the point
  \<open>c = 0\<close>, leaves by the periodicity shortcut at index \<open>21\<close>, and the stored
  \<open>max_iter\<close> reads back as \<open>-2^31\<close>.
\<close>

theorem grid_entry_wraps_counterexample:
  "entry (mandelbrot_calculation 3 3 (- 1) 1 (- 1) 1 2147483648) 1 1 = Inr (- 2147483648)"
proof -
  have p: "plane_point 3 3 (- 1) 1 (- 1) 1 1 1 = Complex 0 0"
    by (simp add: plane_point_def)
  have e: "escape_loop (Complex 0 0) 2147483648 0 0 = Periodic"
    unfolding zero_complex.code by (simp add: escape_loop_Complex)
  have "entry (mandelbrot_calculation 3 3 (- 1) 1 (- 1) 1 2147483648) 1 1 =
          Inr (cell_value 2147483648
            (escape_loop (plane_point 3 3 (- 1) 1 (- 1) 1 (int 1) (int 1)) 2147483648 0 0))"
    by (rule entry_grid) simp_all
  then show ?thesis by (simp add: p e int32_def)
qed

text \<open>
  C6, amended: for \<open>height \<ge> 1\<close>, \<open>width \<ge> 1\<close> and \<open>0 \<le> max_iter < 2^31\<close>, every
  entry of the grid returned lies in \<open>[0, max_iter]\<close>, and an entry equals
  \<open>max_iter\<close> exactly when the loop of its pixel was used up without the divergence
  test succeeding, or left by the periodicity shortcut.
\<close>

theorem grid_entries_in_range:
  assumes "mandelbrot_calculation h w x0 x1 y0 y1 m = Inr g"
    and "1 \<le> h" and "1 \<le> w" and "0 \<le> m" and "m < 2147483648"
  shows "\<forall>i < length g. \<forall>j < length (g ! i).
           0 \<le> g ! i ! j \<and> g ! i ! j \<le> m \<and>
           (g ! i ! j = m \<longleftrightarrow>
              escape_loop (plane_point h w x0 x1 y0 y1 (int i) (int j)) m 0 0 = Periodic \<or>
              escape_loop (plane_point h w x0 x1 y0 y1 (int i) (int j)) m 0 0 = Completed)"
proof (intro allI impI)
  fix i j
  assume ij: "i < length g" "j < length (g ! i)"
  have "g ! i ! j = cell_value m (escape_loop (plane_point h w x0 x1 y0 y1 (int i) (int j)) m 0 0)"
    by (rule grid_nth_cell [OF assms(1) ij])
  with cell_value_bounds [OF assms(4,5), of "plane_point h w x0 x1 y0 y1 (int i) (int j)"]
  show "0 \<le> g ! i ! j \<and> g ! i ! j \<le> m \<and>
           (g ! i ! j = m \<longleftrightarrow>
              escape_loop (plane_point h w x0 x1 y0 y1 (int i) (int j)) m 0 0 = Periodic \<or>
              escape_loop (plane_point h w x0 x1 y0 y1 (int i) (int j)) m 0 0 = Completed)"
    by simp
qed

text \<open>C6, the amended statement on a three-by-three grid with \<open>max_iter = 50\<close>.\<close>

theorem grid_entries_in_range_witness:
  "\<exists>g. mandelbrot_calculation 3 3 (- 1) 1 (- 1) 1 50 = Inr g \<and> length g = 3 \<and>
       length (g ! 1) = 3 \<and> 0 \<le> g ! 1 ! 1 \<and> g ! 1 ! 1 \<le> 50 \<and>
       (g ! 1 ! 1 = 50 \<longleftrightarrow>
          escape_loop (plane_point 3 3 (- 1) 1 (- 1) 1 1 1) 50 0 0 = Periodic \<or>
          escape_loop (plane_point 3 3 (- 1) 1 (- 1) 1 1 1) 50 0 0 = Completed)"
proof -
  obtain g where g: "mandelbrot_calculation 3 3 (- 1) 1 (- 1) 1 50 = Inr g"
    using mandelbrot_calculation_Inr [of 3 3] by simp
  from g have len: "length g = 3" "length (g ! 1) = 3"
    using mandelbrot_calculation_Inr [of 3 3 "- 1" 1 "- 1" 1 50] by auto
  from grid_entries_in_range [OF g] len have
    "0 \<le> g ! 1 ! 1 \<and> g ! 1 ! 1 \<le> 50 \<and>
       (g ! 1 ! 1 = 50 \<longleftrightarrow>
          escape_loop (plane_point 3 3 (- 1) 1 (- 1) 1 (int 1) (int 1)) 50 0 0 = Periodic \<or>
          escape_loop (plane_point 3 3 (- 1) 1 (- 1) 1 (int 1) (int 1)) 50 0 0 = Completed)"
    by simp
  with g len show ?thesis by simp
qed

subsection \<open>C7\<close>

text \<open>
  C7, as stated, fails. The claim: when nothing changes the tuple
  \<open>(x_center, y_center, zoom, width, height, max_iter)\<close> between two calls of
  \<open>generate\<close>, the second call renders nothing, and a render is triggered exactly
  when the tuple differs. On a new engine, \<open>generate\<close>, then \<open>reset_view\<close>, then
  \<open>generate\<close>: the reset leaves the tuple as it was, it empties the cache, and the
  second call renders again (\<open>render_count\<close> goes from \<open>1\<close> to \<open>2\<close>).
\<close>

theorem generate_after_reset_counterexample:
  "\<not> isl (generate (projr (MandelbrotEngine 4 3))) \<and>
   current_params (reset_view (snd (projr (generate (projr (MandelbrotEngine 4 3))))))
     = current_params (snd (projr (generate (projr (MandelbrotEngine 4 3))))) \<and>
   render_count (snd (projr (generate (projr (MandelbrotEngine 4 3))))) = 1 \<and>
   \<not> isl (generate (reset_view (snd (projr (generate (projr (MandelbrotEngine 4 3))))))) \<and>
   render_count (snd (projr (generate (reset_view
      (snd (projr (generate (projr (MandelbrotEngine 4 3))))))))) = 2"
proof -
  let ?E = "projr (MandelbrotEngine 4 3)"
  have E: "?E = \<lparr>width = 4, height = 3, x_center = - (1 / 2), y_center = 0, zoom = 1,
          aspect_ratio = 4 / 3, max_iter = 100, min_iter = 50,
          max_max_iter = 2000, last_params = None, cached_result = None,
          render_count = 0, total_pixels = 12\<rparr>"
    by (simp add: MandelbrotEngine_Inr)
  have miss: "\<not> cache_hit ?E" by (simp add: E cache_hit_def)
  from generate_miss_total [OF miss] obtain g where
    g: "generate ?E = Inr (g, ?E\<lparr>last_params := Some (current_params ?E),
          cached_result := Some g, render_count := render_count ?E + 1\<rparr>)"
    by (auto simp: E)
  let ?E1 = "?E\<lparr>last_params := Some (current_params ?E),
          cached_result := Some g, render_count := render_count ?E + 1\<rparr>"
  have miss2: "\<not> cache_hit (reset_view ?E1)"
    by (simp add: cache_hit_def reset_view_def)
  from generate_miss_total [OF miss2] obtain g2 where
    g2: "generate (reset_view ?E1) =
           Inr (g2, (reset_view ?E1)\<lparr>last_params := Some (current_params (reset_view ?E1)),
             cached_result := Some g2, render_count := render_count (reset_view ?E1) + 1\<rparr>)"
    by (auto simp: E reset_view_def)
  show ?thesis
    unfolding g sum.sel snd_conv g2
    by (simp add: E reset_view_def current_params_def)
qed

text \<open>
  C7, amended: when a call of \<open>generate\<close> follows another with no call on the engine
  in between, the second one renders nothing (\<open>render_count\<close> is unchanged) and
  returns the held grid, equal to the first result. A call renders (and adds one to
  \<open>render_count\<close>) exactly when the tuple differs from the cached one or no grid is
  held; \<open>reset_view\<close>, \<open>increase_iterations\<close>, \<open>decrease_iterations\<close> and a
  \<open>resize\<close> that returns empty the cache, so the call after one of them renders
  again, whatever the tuple.
\<close>

theorem generate_cache:
  assumes "generate s = Inr (g, s')"
  shows "generate s' = Inr (g, s') \<and>
         (render_count s' \<noteq> render_count s \<longleftrightarrow>
            \<not> (last_params s = Some (current_params s) \<and> cached_result s \<noteq> None)) \<and>
         (render_count s' = render_count s \<or> render_count s' = render_count s + 1) \<and>
         \<not> cache_hit (reset_view s') \<and>
         \<not> cache_hit (increase_iterations s' f) \<and>
         \<not> cache_hit (decrease_iterations s' f) \<and>
         (fst (resize s' w h) = None \<longrightarrow> \<not> cache_hit (snd (resize s' w h)))"
proof -
  from cache_hit_after_generate [OF assms]
  have 1: "generate s' = Inr (g, s')" by (simp add: generate_hit)
  have 2: "(render_count s' \<noteq> render_count s \<longleftrightarrow> \<not> cache_hit s) \<and>
    (render_count s' = render_count s \<or> render_count s' = render_count s + 1)"
  proof (cases "cache_hit s")
    case True
    with assms show ?thesis by (auto simp: generate_def)
  next
    case False
    from generate_miss [OF False assms] False show ?thesis by auto
  qed
  have 3: "\<not> cache_hit (reset_view s')" "\<not> cache_hit (increase_iterations s' f)"
    "\<not> cache_hit (decrease_iterations s' f)"
    "fst (resize s' w h) = None \<longrightarrow> \<not> cache_hit (snd (resize s' w h))"
    by (simp_all add: cache_hit_def reset_view_def increase_iterations_def
        decrease_iterations_def resize_def split: sum.splits)
  from 1 2 3 show ?thesis by (simp add: cache_hit_def)
qed

text \<open>C7, the amended statement on the first render of a new engine.\<close>

theorem generate_cache_witness:
  "\<exists>g s'. generate (projr (MandelbrotEngine 4 3)) = Inr (g, s') \<and>
      generate s' = Inr (g, s') \<and> render_count s' = 1"
proof -
  let ?E = "projr (MandelbrotEngine 4 3)"
  have E: "?E = \<lparr>width = 4, height = 3, x_center = - (1 / 2), y_center = 0, zoom = 1,
          aspect_ratio = 4 / 3, max_iter = 100, min_iter = 50,
          max_max_iter = 2000, last_params = None, cached_result = None,
          render_count = 0, total_pixels = 12\<rparr>"
    by (simp add: MandelbrotEngine_Inr)
  have miss: "\<not> cache_hit ?E" by (simp add: E cache_hit_def)
  from generate_miss_total [OF miss] obtain g where
    g: "generate ?E = Inr (g, ?E\<lparr>last_params := Some (current_params ?E),
          cached_result := Some g, render_count := render_count ?E + 1\<rparr>)"
    by (auto simp: E)
  from generate_cache [OF g] g show ?thesis by (simp add: E)
qed

subsection \<open>C8\<close>

text \<open>
  C8, as stated, fails. The claim: the zoom stays in \<open>[0.1, 1e15]\<close>, and a zoom request
  that would leave the range is clamped, never rejected. On a new four-by-three
  engine \<open>resize(0, 5)\<close> returns and leaves \<open>aspect_ratio = 0.0\<close>; the request
  \<open>zoom_at_point(0, 0, 1e19)\<close> after it, which would take the zoom from \<open>1\<close> beyond
  \<open>1e15\<close>, is not clamped: it raises.
\<close>

theorem zoom_request_rejected_counterexample:
  "fst (resize (projr (MandelbrotEngine 4 3)) 0 5) = None \<and>
   width (foldl nav_step (projr (MandelbrotEngine 4 3)) [Resize 0 5]) = 0 \<and>
   zoom (foldl nav_step (projr (MandelbrotEngine 4 3)) [Resize 0 5]) = 1 \<and>
   zoom_at_point (foldl nav_step (projr (MandelbrotEngine 4 3)) [Resize 0 5])
     0 0 10000000000000000000 = Inl ZeroDivisionError"
  by (simp add: MandelbrotEngine_Inr resize_def truediv_def zoom_at_point_def get_bounds_def)

text \<open>
  C8, amended: from the state \<open>__init__\<close> leaves, every sequence of \<open>zoom_at_point\<close>,
  \<open>pan\<close>, \<open>reset_view\<close>, \<open>resize\<close>, \<open>increase_iterations\<close> and
  \<open>decrease_iterations\<close>, with any arguments, leaves the zoom in \<open>[0.1, 1e15]\<close>; and
  on an engine whose width and height are not zero a zoom request is never rejected:
  \<open>zoom_at_point\<close> returns, with the zoom set to the product clamped into the range.
\<close>

theorem zoom_stays_in_range:
  assumes "MandelbrotEngine w h = Inr s0"
  shows "zoom_in_range (foldl nav_step s0 ops) \<and>
         (width (foldl nav_step s0 ops) \<noteq> 0 \<and> height (foldl nav_step s0 ops) \<noteq> 0 \<longrightarrow>
            (\<exists>s'. zoom_at_point (foldl nav_step s0 ops) x y k = Inr s' \<and>
               zoom s' = max (1 / 10)
                           (min 1000000000000000 (zoom (foldl nav_step s0 ops) * k)) \<and>
               zoom_in_range s'))"
proof -
  let ?s = "foldl nav_step s0 ops"
  have inv: "zoom_in_range ?s"
    by (rule foldl_nav_step_zoom_in_range) (rule MandelbrotEngine_zoom_in_range [OF assms])
  have asp: "aspect_known ?s"
    by (rule foldl_nav_step_aspect_known) (rule MandelbrotEngine_aspect_known [OF assms])
  have ok: "\<exists>s'. zoom_at_point ?s x y k = Inr s' \<and>
               zoom s' = max (1 / 10) (min 1000000000000000 (zoom ?s * k)) \<and>
               zoom_in_range s'"
    if d: "width ?s \<noteq> 0 \<and> height ?s \<noteq> 0"
  proof -
    from inv have z: "zoom ?s \<noteq> 0" by (simp add: zoom_in_range_def)
    from asp d have a: "aspect_ratio ?s \<noteq> 0" by (simp add: aspect_known_def)
    from d have wh: "width ?s \<noteq> 0" "height ?s \<noteq> 0" by simp_all
    from zoom_at_point_Inr [OF z a wh, of x y k] obtain s' where
      s': "zoom_at_point ?s x y k = Inr s'" by blast
    from zoom_at_point_zoom [OF s'] s' show ?thesis
      by (auto simp: zoom_in_range_def)
  qed
  from inv ok show ?thesis by blast
qed

text \<open>
  C8, on a new four-by-three engine: a zoom-out by \<open>1000\<close> stops at \<open>0.1\<close>, a zoom-in
  by \<open>1e19\<close> stops at \<open>1e15\<close>, the zoom is in range after eight commands, and after
  \<open>resize(8, 6)\<close> the request by \<open>1e19\<close> returns.
\<close>

theorem zoom_stays_in_range_witness:
  "MandelbrotEngine 4 3 = Inr (projr (MandelbrotEngine 4 3)) \<and>
   zoom_in_range (foldl nav_step (projr (MandelbrotEngine 4 3))
     [ZoomAtPoint 1 1 (1 / 1000), Pan 3 (- 2), ZoomAtPoint 2 2 10000000000000000000,
      Resize 8 6, IncreaseIterations 50, DecreaseIterations 50, ResetView,
      ZoomAtPoint 0 0 (12 / 10)]) \<and>
   zoom (foldl nav_step (projr (MandelbrotEngine 4 3)) [ZoomAtPoint 1 1 (1 / 1000)]) = 1 / 10 \<and>
   zoom (foldl nav_step (projr (MandelbrotEngine 4 3))
     [ZoomAtPoint 1 1 (1 / 1000), Pan 3 (- 2), ZoomAtPoint 2 2 10000000000000000000])
     = 1000000000000000 \<and>
   width (foldl nav_step (projr (MandelbrotEngine 4 3)) [Resize 8 6]) = 8 \<and>
   height (foldl nav_step (projr (MandelbrotEngine 4 3)) [Resize 8 6]) = 6 \<and>
   (\<exists>s'. zoom_at_point (foldl nav_step (projr (MandelbrotEngine 4 3)) [Resize 8 6])
            2 2 10000000000000000000 = Inr s' \<and>
         zoom s' = max (1 / 10) (min 1000000000000000
           (zoom (foldl nav_step (projr (MandelbrotEngine 4 3)) [Resize 8 6])
              * 10000000000000000000)) \<and>
         zoom_in_range s')"
proof -
  have E: "MandelbrotEngine 4 3 = Inr (projr (MandelbrotEngine 4 3))"
    by (simp add: MandelbrotEngine_Inr)
  have 1: "zoom (foldl nav_step (projr (MandelbrotEngine 4 3)) [ZoomAtPoint 1 1 (1 / 1000)]) = 1 / 10"
    by (simp add: MandelbrotEngine_Inr zoom_at_point_Inr)
  have 2: "zoom (foldl nav_step (projr (MandelbrotEngine 4 3))
     [ZoomAtPoint 1 1 (1 / 1000), Pan 3 (- 2), ZoomAtPoint 2 2 10000000000000000000])
     = 1000000000000000"
    by (simp add: MandelbrotEngine_Inr zoom_at_point_Inr pan_def get_bounds_Inr truediv_def)
  have 3: "width (foldl nav_step (projr (MandelbrotEngine 4 3)) [Resize 8 6]) = 8"
    "height (foldl nav_step (projr (MandelbrotEngine 4 3)) [Resize 8 6]) = 6"
    by (simp_all add: MandelbrotEngine_Inr resize_def truediv_def)
  from zoom_stays_in_range [OF E, where ops = "[ZoomAtPoint 1 1 (1 / 1000), Pan 3 (- 2),
      ZoomAtPoint 2 2 10000000000000000000, Resize 8 6, IncreaseIterations 50,
      DecreaseIterations 50, ResetView, ZoomAtPoint 0 0 (12 / 10)]"]
  have a: "zoom_in_range (foldl nav_step (projr (MandelbrotEngine 4 3))
     [ZoomAtPoint 1 1 (1 / 1000), Pan 3 (- 2), ZoomAtPoint 2 2 10000000000000000000,
      Resize 8 6, IncreaseIterations 50, DecreaseIterations 50, ResetView,
      ZoomAtPoint 0 0 (12 / 10)])"
    by blast
  from zoom_stays_in_range [OF E, where ops = "[Resize 8 6]" and x = 2 and y = 2
      and k = 10000000000000000000] 3
  have b: "\<exists>s'. zoom_at_point (foldl nav_step (projr (MandelbrotEngine 4 3)) [Resize 8 6])
            2 2 10000000000000000000 = Inr s' \<and>
         zoom s' = max (1 / 10) (min 1000000000000000
           (zoom (foldl nav_step (projr (MandelbrotEngine 4 3)) [Resize 8 6])
              * 10000000000000000000)) \<and>
         zoom_in_range s'"
    by simp
  from E 1 2 3 a b show ?thesis by blast
qed

subsection \<open>C9\<close>

text \<open>
  C9. If \<open>iterations \<ge> max_iterations\<close> then \<open>get_color\<close> returns exactly
  \<open>(0, 0, 0)\<close>, whatever the palette and the animation time: on every palette state
  that keeps the invariant of the cache, and so on every state the commands reach
  from a new palette.
\<close>

theorem get_color_in_set_is_black:
  assumes "m \<le> v"
  shows "(cache_sound s \<longrightarrow> (\<exists>s'. get_color s v m = Inr ((0, 0, 0), s') \<and> cache_sound s')) \<and>
         (\<exists>s'. get_color (foldl palette_step ColorPalette ops) v m = Inr ((0, 0, 0), s'))"
proof -
  have a: "\<exists>s'. get_color s v m = Inr ((0, 0, 0), s') \<and> cache_sound s'" if "cache_sound s" for s
  proof -
    from get_color_total [of v m s] assms obtain c s' where g: "get_color s v m = Inr (c, s')"
      by (metis surj_pair)
    from get_color_sound [OF that g] assms g show ?thesis by auto
  qed
  from a [OF reachable_sound] a show ?thesis by blast
qed

text \<open>C9, for \<open>get_color(7, 3)\<close> after four commands.\<close>

theorem get_color_in_set_is_black_witness:
  "(3::int) \<le> 7 \<and>
   (\<exists>s'. get_color (foldl palette_step ColorPalette
            [GetColor 7 3, NextPalette, ApplyColors [[1, 2], [2, 5]], GetColor 5 5]) 7 3
          = Inr ((0, 0, 0), s'))"
proof -
  have h: "(3::int) \<le> 7" by simp
  from get_color_in_set_is_black [OF h,
      where ops = "[GetColor 7 3, NextPalette, ApplyColors [[1, 2], [2, 5]], GetColor 5 5]"]
  show ?thesis using h by blast
qed

subsection \<open>C10\<close>



end
